theory Spec2Isabelle
  imports Complex_Main
begin

section \<open>Values of numpy's float64\<close>

text \<open>
  Every number the analysis pipeline of \<^verbatim>\<open>forecasting.py\<close> handles is a float64 held in a
  pandas column or a numpy array. The decisions of the code depend on the special values of
  that type: NaN (never ordered, never equal), the two infinities and the two zeros (a
  division by zero does not raise in numpy, it returns an infinity whose sign is the product
  of the signs, or NaN for 0/0). They are modelled as they are. A finite value that is not
  the negative zero is \<open>Fin r\<close> with \<open>r\<close> its exact value, so \<open>Fin 0\<close> is \<open>+0.0\<close>; the result
  of an operation on finite values is the exact real result: rounding to 53 bits, overflow
  and underflow are not modelled.
\<close>

datatype f64 = Fin real | NegZero | PInf | NInf | NaN

fun rv :: "f64 \<Rightarrow> real" where
  "rv (Fin r) = r"
| "rv NegZero = 0"
| "rv PInf = 0"
| "rv NInf = 0"
| "rv NaN = 0"

fun is_nan :: "f64 \<Rightarrow> bool" where
  "is_nan NaN = True"
| "is_nan _ = False"

fun is_inf :: "f64 \<Rightarrow> bool" where
  "is_inf PInf = True"
| "is_inf NInf = True"
| "is_inf _ = False"

fun is_zero :: "f64 \<Rightarrow> bool" where
  "is_zero (Fin r) = (r = 0)"
| "is_zero NegZero = True"
| "is_zero _ = False"

text \<open>The sign bit (of a NaN it is never looked at).\<close>

fun sign_bit :: "f64 \<Rightarrow> bool" where
  "sign_bit (Fin r) = (r < 0)"
| "sign_bit NegZero = True"
| "sign_bit NInf = True"
| "sign_bit PInf = False"
| "sign_bit NaN = False"

definition f_zero :: "bool \<Rightarrow> f64" where
  "f_zero s = (if s then NegZero else Fin 0)"

definition f_inf :: "bool \<Rightarrow> f64" where
  "f_inf s = (if s then NInf else PInf)"

text \<open>\<^verbatim>\<open>np.isinf(x) or np.isnan(x)\<close> is the negation of this.\<close>

definition is_finite :: "f64 \<Rightarrow> bool" where
  "is_finite x = (\<not> is_nan x \<and> \<not> is_inf x)"

subsection \<open>Comparisons\<close>

text \<open>\<^verbatim>\<open>a < b\<close>: false as soon as one side is NaN; the two zeros are equal.\<close>

fun f_lt :: "f64 \<Rightarrow> f64 \<Rightarrow> bool" where
  "f_lt NaN _ = False"
| "f_lt _ NaN = False"
| "f_lt PInf _ = False"
| "f_lt _ NInf = False"
| "f_lt NInf _ = True"
| "f_lt _ PInf = True"
| "f_lt a b = (rv a < rv b)"

definition f_gt :: "f64 \<Rightarrow> f64 \<Rightarrow> bool" where
  "f_gt a b = f_lt b a"

text \<open>\<^verbatim>\<open>a == b\<close>.\<close>

fun f_eq :: "f64 \<Rightarrow> f64 \<Rightarrow> bool" where
  "f_eq NaN _ = False"
| "f_eq _ NaN = False"
| "f_eq PInf b = (b = PInf)"
| "f_eq NInf b = (b = NInf)"
| "f_eq a PInf = False"
| "f_eq a NInf = False"
| "f_eq a b = (rv a = rv b)"

text \<open>\<^verbatim>\<open>a <= b\<close>.\<close>

definition f_le :: "f64 \<Rightarrow> f64 \<Rightarrow> bool" where
  "f_le a b = (f_lt a b \<or> f_eq a b)"

subsection \<open>Arithmetic\<close>

fun f_neg :: "f64 \<Rightarrow> f64" where
  "f_neg (Fin r) = (if r = 0 then NegZero else Fin (- r))"
| "f_neg NegZero = Fin 0"
| "f_neg PInf = NInf"
| "f_neg NInf = PInf"
| "f_neg NaN = NaN"

text \<open>\<^verbatim>\<open>np.abs\<close> clears the sign bit.\<close>

fun f_abs :: "f64 \<Rightarrow> f64" where
  "f_abs (Fin r) = Fin \<bar>r\<bar>"
| "f_abs NegZero = Fin 0"
| "f_abs PInf = PInf"
| "f_abs NInf = PInf"
| "f_abs NaN = NaN"

text \<open>
  \<^verbatim>\<open>a + b\<close>: opposite infinities give NaN; a sum that is exactly zero is \<open>+0.0\<close> unless both
  operands are \<open>-0.0\<close> (round to nearest).
\<close>

definition f_add :: "f64 \<Rightarrow> f64 \<Rightarrow> f64" where
  "f_add a b =
     (if is_nan a \<or> is_nan b then NaN
      else if is_inf a then (if is_inf b \<and> a \<noteq> b then NaN else a)
      else if is_inf b then b
      else if a = NegZero \<and> b = NegZero then NegZero
      else Fin (rv a + rv b))"

text \<open>\<^verbatim>\<open>a - b\<close> is \<^verbatim>\<open>a + (-b)\<close>.\<close>

definition f_sub :: "f64 \<Rightarrow> f64 \<Rightarrow> f64" where
  "f_sub a b = f_add a (f_neg b)"

text \<open>\<^verbatim>\<open>a * b\<close>: the sign is the exclusive or of the signs; infinity times zero is NaN.\<close>

definition f_mul :: "f64 \<Rightarrow> f64 \<Rightarrow> f64" where
  "f_mul a b =
     (if is_nan a \<or> is_nan b then NaN
      else if is_inf a \<or> is_inf b then
        (if is_zero a \<or> is_zero b then NaN else f_inf (sign_bit a \<noteq> sign_bit b))
      else if is_zero a \<or> is_zero b then f_zero (sign_bit a \<noteq> sign_bit b)
      else Fin (rv a * rv b))"

text \<open>
  \<^verbatim>\<open>a / b\<close> on float64 arrays and scalars: no exception. A nonzero value over a zero is an
  infinity with the exclusive or of the signs; \<open>0/0\<close> and \<open>inf/inf\<close> are NaN.
\<close>

definition f_div :: "f64 \<Rightarrow> f64 \<Rightarrow> f64" where
  "f_div a b =
     (if is_nan a \<or> is_nan b then NaN
      else if is_inf a then (if is_inf b then NaN else f_inf (sign_bit a \<noteq> sign_bit b))
      else if is_inf b then f_zero (sign_bit a \<noteq> sign_bit b)
      else if is_zero b then (if is_zero a then NaN else f_inf (sign_bit a \<noteq> sign_bit b))
      else if is_zero a then f_zero (sign_bit a \<noteq> sign_bit b)
      else Fin (rv a / rv b))"

text \<open>\<^verbatim>\<open>np.sqrt\<close>: NaN below zero, and the square root of \<open>-0.0\<close> is \<open>-0.0\<close>.\<close>

fun f_sqrt :: "f64 \<Rightarrow> f64" where
  "f_sqrt (Fin r) = (if r < 0 then NaN else Fin (sqrt r))"
| "f_sqrt NegZero = NegZero"
| "f_sqrt PInf = PInf"
| "f_sqrt NInf = NaN"
| "f_sqrt NaN = NaN"

section \<open>AnomalyDetector: \<^verbatim>\<open>detect_anomalies\<close>\<close>

type_synonym timestamp = int

text \<open>A row of \<^verbatim>\<open>actuals\<close> (columns \<^verbatim>\<open>ds\<close>, \<^verbatim>\<open>y\<close>).\<close>

record history_row =
  ds :: timestamp
  y :: f64

text \<open>A row of \<^verbatim>\<open>forecast[['ds', 'yhat_lower', 'yhat_upper', 'yhat']]\<close>.\<close>

record forecast_row =
  f_ds :: timestamp
  yhat_lower :: f64
  yhat_upper :: f64
  yhat :: f64

text \<open>A row of \<^verbatim>\<open>merged\<close>.\<close>

record merged_row =
  m_ds :: timestamp
  m_y :: f64
  m_yhat_lower :: f64
  m_yhat_upper :: f64
  m_yhat :: f64

datatype level = High | Medium | Low

text \<open>A row of the frame \<^verbatim>\<open>detect_anomalies\<close> returns.\<close>

record anomaly =
  a_ds :: timestamp
  a_y :: f64
  a_yhat :: f64
  a_yhat_lower :: f64
  a_yhat_upper :: f64
  severity :: f64
  severity_level :: level

definition join_rows :: "history_row \<Rightarrow> forecast_row \<Rightarrow> merged_row" where
  "join_rows h f =
     \<lparr>m_ds = ds h, m_y = y h, m_yhat_lower = yhat_lower f, m_yhat_upper = yhat_upper f,
      m_yhat = yhat f\<rparr>"

text \<open>
  \<^verbatim>\<open>pd.merge(actuals, forecast[[...]], on='ds', how='inner')\<close>: every pair of a left and a
  right row with the same key, in the order of the left rows.
\<close>

definition merge_on_ds :: "history_row list \<Rightarrow> forecast_row list \<Rightarrow> merged_row list" where
  "merge_on_ds actuals forecast =
     concat (map (\<lambda>h. map (join_rows h) (filter (\<lambda>f. f_ds f = ds h) forecast)) actuals)"

text \<open>The column \<^verbatim>\<open>merged['is_anomaly']\<close>.\<close>

definition is_anomaly :: "merged_row \<Rightarrow> bool" where
  "is_anomaly m = (f_lt (m_y m) (m_yhat_lower m) \<or> f_gt (m_y m) (m_yhat_upper m))"

text \<open>The column \<^verbatim>\<open>anomalies['severity_pct']\<close>.\<close>

definition severity_pct :: "merged_row \<Rightarrow> f64" where
  "severity_pct m = f_mul (f_div (f_abs (f_sub (m_y m) (m_yhat m))) (m_yhat m)) (Fin 100)"

definition classify_severity :: "f64 \<Rightarrow> level" where
  "classify_severity pct =
     (if f_gt pct (Fin 20) then High
      else if f_gt pct (Fin 10) then Medium
      else Low)"

definition anomaly_row :: "merged_row \<Rightarrow> anomaly" where
  "anomaly_row m =
     \<lparr>a_ds = m_ds m, a_y = m_y m, a_yhat = m_yhat m, a_yhat_lower = m_yhat_lower m,
      a_yhat_upper = m_yhat_upper m,
      severity = f_abs (f_sub (m_y m) (m_yhat m)),
      severity_level = classify_severity (severity_pct m)\<rparr>"

definition detect_anomalies :: "forecast_row list \<Rightarrow> history_row list \<Rightarrow> anomaly list" where
  "detect_anomalies forecast actuals =
     (let merged = merge_on_ds actuals forecast;
          anomalies = filter is_anomaly merged
      in if anomalies = [] then [] else map anomaly_row anomalies)"

section \<open>Errors\<close>

text \<open>
  The exceptions the modelled functions raise, as values. \<open>NoDateColumn\<close> and
  \<open>NoTargetColumn\<close> are the two \<^verbatim>\<open>ValueError\<close>s of \<^verbatim>\<open>normalize_columns\<close>; the others are
  raised by pandas and numpy inside the calls the functions make.
\<close>

datatype error =
    NoDateColumn
  | NoTargetColumn
  | TypeError
  | ShapeError
  | IndexError
  | KeyError

section \<open>MetricsCalculator: \<^verbatim>\<open>calculate_metrics\<close>\<close>

record metrics =
  MAE :: f64
  RMSE :: f64
  MAPE :: f64

text \<open>
  \<^verbatim>\<open>np.mean\<close> is the sum over the count. The sum of a non-empty array starts from its first
  element.
\<close>

fun f_sum :: "f64 list \<Rightarrow> f64" where
  "f_sum [] = Fin 0"
| "f_sum (x # xs) = foldl f_add x xs"

definition f_mean :: "f64 list \<Rightarrow> f64" where
  "f_mean xs = f_div (f_sum xs) (Fin (real (length xs)))"

text \<open>Rounding a real to the nearest integer, ties to the even one (\<^verbatim>\<open>np.rint\<close>).\<close>

definition rint :: "real \<Rightarrow> int" where
  "rint x =
     (let f = \<lfloor>x\<rfloor>; d = x - of_int f
      in if d < 1 / 2 then f
         else if 1 / 2 < d then f + 1
         else if even f then f else f + 1)"

text \<open>
  \<^verbatim>\<open>round(x, n)\<close> of a float64: scale by \<open>10 ^ n\<close>, round to the nearest integer, scale
  back. Infinities and NaN are returned as they are; a result that is zero keeps the sign.
\<close>

fun py_round :: "f64 \<Rightarrow> nat \<Rightarrow> f64" where
  "py_round (Fin r) n =
     (let q = rint (r * 10 ^ n)
      in if q = 0 then f_zero (r < 0) else Fin (of_int q / 10 ^ n))"
| "py_round x n = x"

text \<open>
  The pairs that pass \<^verbatim>\<open>mask = ~np.isnan(y_true) & ~np.isnan(y_pred)\<close>, in order.
\<close>

definition valid_pairs :: "f64 list \<Rightarrow> f64 list \<Rightarrow> (f64 \<times> f64) list" where
  "valid_pairs y_true y_pred =
     filter (\<lambda>(t, p). \<not> is_nan t \<and> \<not> is_nan p) (zip y_true y_pred)"

text \<open>\<^verbatim>\<open>np.mean(np.abs(y_true - y_pred))\<close>\<close>

definition mae_of :: "(f64 \<times> f64) list \<Rightarrow> f64" where
  "mae_of ps = f_mean (map (\<lambda>(t, p). f_abs (f_sub t p)) ps)"

text \<open>\<^verbatim>\<open>np.sqrt(np.mean((y_true - y_pred) ** 2))\<close>\<close>

definition rmse_of :: "(f64 \<times> f64) list \<Rightarrow> f64" where
  "rmse_of ps = f_sqrt (f_mean (map (\<lambda>(t, p). f_mul (f_sub t p) (f_sub t p)) ps))"

text \<open>\<^verbatim>\<open>np.mean(np.abs((y_true - y_pred) / y_true)) * 100\<close>, before the guard.\<close>

definition mape_term :: "(f64 \<times> f64) list \<Rightarrow> f64" where
  "mape_term ps = f_mul (f_mean (map (\<lambda>(t, p). f_abs (f_div (f_sub t p) t)) ps)) (Fin 100)"

text \<open>
  Two arrays of different lengths do not pass the masking (numpy refuses to broadcast them,
  or to index one with the mask of the other), except an array of one element with an empty
  one: their masks broadcast to the empty mask, which selects nothing from either, and the
  three zeros are returned.
\<close>

definition calculate_metrics :: "f64 list \<Rightarrow> f64 list \<Rightarrow> error + metrics" where
  "calculate_metrics y_true y_pred =
     (if length y_true \<noteq> length y_pred then
        (if length y_true + length y_pred = 1
         then Inr \<lparr>MAE = Fin 0, RMSE = Fin 0, MAPE = Fin 0\<rparr>
         else Inl ShapeError)
      else
        let ps = valid_pairs y_true y_pred
        in if length ps = 0 then Inr \<lparr>MAE = Fin 0, RMSE = Fin 0, MAPE = Fin 0\<rparr>
           else
             let mae = mae_of ps;
                 rmse = rmse_of ps;
                 mape = mape_term ps;
                 mape = (if is_inf mape \<or> is_nan mape then Fin 0 else mape)
             in Inr \<lparr>MAE = py_round mae 4, RMSE = py_round rmse 4, MAPE = py_round mape 2\<rparr>)"

section \<open>ColumnNormalizer: \<^verbatim>\<open>normalize_columns\<close>\<close>

text \<open>
  A cell of a pandas column: a number (in a numeric column every cell is one, a missing
  value being NaN), a string, or \<^verbatim>\<open>None\<close>.
\<close>

datatype cell = Num f64 | Str string | NoneCell

text \<open>
  A column: its label, whether \<^verbatim>\<open>select_dtypes(include=['number', 'float', 'int'])\<close>
  selects its dtype, and its cells from the first row to the last. A data frame is the
  list of its columns in their order; pandas allows two columns with one label.
\<close>

record column =
  col_name :: string
  col_numeric :: bool
  col_cells :: "cell list"

type_synonym dataframe = "column list"

text \<open>
  \<^verbatim>\<open>str.lower\<close> on the letters A to Z. No other character lower-cases to a letter of the
  names the detection looks for.
\<close>

definition lower_char :: "char \<Rightarrow> char" where
  "lower_char c =
     (case map_of (zip ''ABCDEFGHIJKLMNOPQRSTUVWXYZ'' ''abcdefghijklmnopqrstuvwxyz'') c of
        Some l \<Rightarrow> l
      | None \<Rightarrow> c)"

definition lower :: "string \<Rightarrow> string" where
  "lower s = map lower_char s"

text \<open>
  \<^verbatim>\<open>not x\<close> for \<^verbatim>\<open>x\<close> either \<^verbatim>\<open>None\<close> or a string: true of \<^verbatim>\<open>None\<close> and of the empty
  string.
\<close>

fun py_not :: "string option \<Rightarrow> bool" where
  "py_not None = True"
| "py_not (Some s) = (s = [])"

text \<open>A \<^verbatim>\<open>for\<close> loop that assigns the first element passing the test and breaks.\<close>

definition first_match :: "('a \<Rightarrow> bool) \<Rightarrow> 'a list \<Rightarrow> 'a option" where
  "first_match P xs = (case filter P xs of [] \<Rightarrow> None | x # _ \<Rightarrow> Some x)"

definition date_names :: "string list" where
  "date_names = [''date'', ''ds'', ''timestamp'', ''time'']"

definition common_names :: "string list" where
  "common_names = [''value'', ''sales'', ''revenue'', ''quantity'', ''amount'', ''close'', ''price'']"

text \<open>Step 1: the date column.\<close>

definition detect_date :: "dataframe \<Rightarrow> string option" where
  "detect_date df =
     (if ''ds'' \<in> set (map col_name df) then Some ''ds''
      else first_match (\<lambda>col. lower col \<in> set date_names) (map col_name df))"

text \<open>
  \<^verbatim>\<open>df[potential_targets].select_dtypes(...).columns\<close>: for every label of the list, the
  columns of the frame with that label, those of a numeric dtype kept.
\<close>

definition numeric_cols :: "dataframe \<Rightarrow> string list \<Rightarrow> string list" where
  "numeric_cols df labels =
     concat (map (\<lambda>l. map col_name (filter (\<lambda>c. col_name c = l \<and> col_numeric c) df)) labels)"

text \<open>Step 2: the target column, the date column being \<open>date_col\<close>.\<close>

definition detect_target :: "dataframe \<Rightarrow> string \<Rightarrow> string option" where
  "detect_target df date_col =
     (if ''y'' \<in> set (map col_name df) then Some ''y''
      else
        let potential_targets = filter (\<lambda>c. c \<noteq> date_col) (map col_name df);
            target_col = first_match (\<lambda>col. lower col = ''y'') potential_targets
        in if py_not target_col then
             let target_col =
                   (case first_match (\<lambda>col. lower col \<in> set common_names) potential_targets of
                      Some col \<Rightarrow> Some col
                    | None \<Rightarrow> target_col)
             in if py_not target_col then
                  (case numeric_cols df potential_targets of
                     [] \<Rightarrow> target_col
                   | col # _ \<Rightarrow> Some col)
                else target_col
           else target_col)"

text \<open>
  \<^verbatim>\<open>df.rename(columns={date_col: 'ds', target_col: 'y'})\<close>: every label that is a key of the
  dictionary is replaced; were the two keys equal, the later entry would be the one kept.
\<close>

definition rename_columns :: "string \<Rightarrow> string \<Rightarrow> dataframe \<Rightarrow> dataframe" where
  "rename_columns date_col target_col df =
     map (\<lambda>c. c\<lparr>col_name :=
                 (if col_name c = target_col then ''y''
                  else if col_name c = date_col then ''ds''
                  else col_name c)\<rparr>) df"

text \<open>
  \<^verbatim>\<open>pd.to_numeric(..., errors='coerce')\<close> on one cell. How pandas reads a string as a number
  is the parameter \<open>parse\<close>; a string it cannot read, and \<^verbatim>\<open>None\<close>, become NaN.
\<close>

fun to_numeric :: "(string \<Rightarrow> f64 option) \<Rightarrow> cell \<Rightarrow> f64" where
  "to_numeric parse (Num v) = v"
| "to_numeric parse (Str s) = (case parse s of Some v \<Rightarrow> v | None \<Rightarrow> NaN)"
| "to_numeric parse NoneCell = NaN"

text \<open>The rows of a column a boolean mask keeps.\<close>

definition keep_rows :: "bool list \<Rightarrow> 'a list \<Rightarrow> 'a list" where
  "keep_rows keep xs = map snd (filter fst (zip keep xs))"

text \<open>
  Step 3. \<^verbatim>\<open>df['y']\<close> is a series only if one column is labelled \<^verbatim>\<open>y\<close>; with more it is a
  frame, which \<^verbatim>\<open>pd.to_numeric\<close> refuses with a \<^verbatim>\<open>TypeError\<close>. The assignment replaces the
  cells of that column by the numbers, \<^verbatim>\<open>dropna(subset=['y'])\<close> removes the rows where the
  number is NaN, and \<^verbatim>\<open>df[['ds', 'y']]\<close> selects the columns labelled \<^verbatim>\<open>ds\<close>, then the
  column labelled \<^verbatim>\<open>y\<close>.
\<close>

definition coerce_and_filter :: "(string \<Rightarrow> f64 option) \<Rightarrow> dataframe \<Rightarrow> error + dataframe" where
  "coerce_and_filter parse df =
     (case filter (\<lambda>c. col_name c = ''y'') df of
        [ycol] \<Rightarrow>
          let nums = map (to_numeric parse) (col_cells ycol);
              df = map (\<lambda>c. if col_name c = ''y''
                              then c\<lparr>col_numeric := True, col_cells := map Num nums\<rparr>
                              else c) df;
              keep = map (\<lambda>v. \<not> is_nan v) nums;
              df = map (\<lambda>c. c\<lparr>col_cells := keep_rows keep (col_cells c)\<rparr>) df
          in Inr (filter (\<lambda>c. col_name c = ''ds'') df @ filter (\<lambda>c. col_name c = ''y'') df)
      | _ \<Rightarrow> Inl TypeError)"

definition normalize_columns :: "(string \<Rightarrow> f64 option) \<Rightarrow> dataframe \<Rightarrow> error + dataframe" where
  "normalize_columns parse df =
     (let date_col = detect_date df
      in if py_not date_col then Inl NoDateColumn
         else
           let target_col = detect_target df (the date_col)
           in if py_not target_col then Inl NoTargetColumn
              else coerce_and_filter parse (rename_columns (the date_col) (the target_col) df))"

text \<open>
  The target column as the specification words it, to compare \<open>detect_target\<close> with: over
  the columns other than the date column, a column named exactly \<^verbatim>\<open>y\<close>; else the first whose
  lower-cased name is \<^verbatim>\<open>y\<close>; else the first whose lower-cased name is a common value name;
  else the first of a numeric dtype; else none.
\<close>

definition target_by_priority :: "dataframe \<Rightarrow> string \<Rightarrow> string option" where
  "target_by_priority df date_col =
     (let others = filter (\<lambda>c. col_name c \<noteq> date_col) df
      in if ''y'' \<in> set (map col_name others) then Some ''y''
         else case first_match (\<lambda>c. lower (col_name c) = ''y'') others of
                Some c \<Rightarrow> Some (col_name c)
              | None \<Rightarrow>
           (case first_match (\<lambda>c. lower (col_name c) \<in> set common_names) others of
                Some c \<Rightarrow> Some (col_name c)
              | None \<Rightarrow>
           (case first_match col_numeric others of
                Some c \<Rightarrow> Some (col_name c)
              | None \<Rightarrow> None)))"

text \<open>
  A table of the shape \<^verbatim>\<open>normalize_columns\<close> returns: the columns labelled \<^verbatim>\<open>ds\<close> (at least
  one), then one column labelled \<^verbatim>\<open>y\<close> of a numeric dtype whose cells are numbers other than
  NaN, no other column being longer than it.
\<close>

fun present_number :: "cell \<Rightarrow> bool" where
  "present_number (Num v) = (\<not> is_nan v)"
| "present_number _ = False"

definition is_normalized :: "dataframe \<Rightarrow> bool" where
  "is_normalized df =
     (df \<noteq> [] \<and> butlast df \<noteq> [] \<and>
      list_all (\<lambda>c. col_name c = ''ds'' \<and> length (col_cells c) \<le> length (col_cells (last df)))
        (butlast df) \<and>
      col_name (last df) = ''y'' \<and> col_numeric (last df) \<and>
      list_all present_number (col_cells (last df)))"

section \<open>InsightGenerator: \<^verbatim>\<open>generate_insights\<close>\<close>

datatype direction = Growth | Decline

datatype intensity = Significant | Moderate | Minimal

text \<open>
  The strings the function appends to \<^verbatim>\<open>insights\<close>, each as the template it is built from
  and the values formatted into it:
  \<^item> \<open>TrendInsight\<close>: \<^verbatim>\<open><b>{intensity} {Direction}</b>: Expect a {abs(trend_pct):.1f}% ...\<close>
  \<^item> \<open>ForecastPeak\<close>: \<^verbatim>\<open><b>Forecast Peak</b>: The model projects a high of ...\<close>
  \<^item> \<open>CriticalVolatility\<close>: \<^verbatim>\<open><b>Critical Volatility</b>: Detected {n} ...\<close>
  \<^item> \<open>StatisticalStability\<close>: \<^verbatim>\<open><b>Statistical Stability</b>: Over {n} historical anomalies ...\<close>
  \<^item> \<open>OperationalStability\<close>: \<^verbatim>\<open><b>Operational Stability</b>: No significant anomalies ...\<close>
  \<^item> \<open>HighConfidence\<close>: \<^verbatim>\<open><b>High Confidence</b>: The model shows high convergence ...\<close>
  \<^item> \<open>VariableForecast\<close>: \<^verbatim>\<open><b>Variable Forecast</b>: Noted a wider uncertainty margin ...\<close>
\<close>

datatype insight =
    TrendInsight intensity direction f64
  | ForecastPeak f64 timestamp
  | CriticalVolatility nat
  | StatisticalStability nat
  | OperationalStability
  | HighConfidence
  | VariableForecast

text \<open>The strings appended to \<^verbatim>\<open>recommendations\<close>, named by their bold headline.\<close>

datatype recommendation =
    ScaleOperations
  | MonitorSteadyGrowth
  | CostOptimization
  | PeakReadiness timestamp
  | RiskMitigation
  | DataRefinement

record insight_set =
  insights :: "insight list"
  recommendations :: "recommendation list"

text \<open>
  The strings themselves. How Python prints a float with one and with two decimals
  (\<^verbatim>\<open>:.1f\<close>, \<^verbatim>\<open>:.2f\<close>), a date (\<^verbatim>\<open>strftime('%Y-%m-%d')\<close>) and a count are parameters.
\<close>

fun intensity_text :: "intensity \<Rightarrow> string" where
  "intensity_text Significant = ''Significant''"
| "intensity_text Moderate = ''Moderate''"
| "intensity_text Minimal = ''Minimal''"

fun direction_text :: "direction \<Rightarrow> string" where
  "direction_text Growth = ''growth''"
| "direction_text Decline = ''decline''"

fun capitalize :: "direction \<Rightarrow> string" where
  "capitalize Growth = ''Growth''"
| "capitalize Decline = ''Decline''"

fun insight_text :: "(f64 \<Rightarrow> string) \<Rightarrow> (f64 \<Rightarrow> string) \<Rightarrow> (timestamp \<Rightarrow> string)
    \<Rightarrow> (nat \<Rightarrow> string) \<Rightarrow> insight \<Rightarrow> string" where
  "insight_text f1 f2 date num (TrendInsight i d v) =
     ''<b>'' @ intensity_text i @ '' '' @ capitalize d @ ''</b>: Expect a '' @ f1 v @ ''% ''
       @ direction_text d @ '' in values over the next forecast cycle.''"
| "insight_text f1 f2 date num (ForecastPeak v t) =
     ''<b>Forecast Peak</b>: The model projects a high of <b>'' @ f2 v @ ''</b> around <b>''
       @ date t @ ''</b>.''"
| "insight_text f1 f2 date num (CriticalVolatility n) =
     ''<b>Critical Volatility</b>: Detected '' @ num n
       @ '' <b>High Severity</b> anomalies requiring immediate review.''"
| "insight_text f1 f2 date num (StatisticalStability n) =
     ''<b>Statistical Stability</b>: Over '' @ num n
       @ '' historical anomalies identified, helping refine model sensitivity.''"
| "insight_text f1 f2 date num OperationalStability =
     ''<b>Operational Stability</b>: No significant anomalies detected in recent historical data.''"
| "insight_text f1 f2 date num HighConfidence =
     ''<b>High Confidence</b>: The model shows high convergence with a narrow prediction interval.''"
| "insight_text f1 f2 date num VariableForecast =
     ''<b>Variable Forecast</b>: Noted a wider uncertainty margin, suggesting potential external market influence.''"

fun recommendation_text :: "(timestamp \<Rightarrow> string) \<Rightarrow> recommendation \<Rightarrow> string" where
  "recommendation_text date ScaleOperations =
     ''<b>Scale Operations</b>: Increase capacity and inventory to meet projected high demand.''"
| "recommendation_text date MonitorSteadyGrowth =
     ''<b>Monitor Steady Growth</b>: Continue current growth strategies with regular performance checks.''"
| "recommendation_text date CostOptimization =
     ''<b>Cost Optimization</b>: Identify potential operational efficiencies to offset the projected decline.''"
| "recommendation_text date (PeakReadiness t) =
     ''<b>Peak Readiness</b>: Plan marketing or maintenance activities around the <b>'' @ date t
       @ ''</b> peak.''"
| "recommendation_text date RiskMitigation =
     ''<b>Risk Mitigation</b>: Audit the high-severity data points to identify root causes and prevent recurrence.''"
| "recommendation_text date DataRefinement =
     ''<b>Data Refinement</b>: Consider adding additional context columns (holidays, promos) to reduce forecast variance.''"

text \<open>\<^verbatim>\<open>series.iloc[-1]\<close>: the last element, an \<^verbatim>\<open>IndexError\<close> on an empty series.\<close>

definition iloc_last :: "'a list \<Rightarrow> error + 'a" where
  "iloc_last xs = (if xs = [] then Inl IndexError else Inr (last xs))"

text \<open>
  \<^verbatim>\<open>future_forecast['yhat'].idxmax()\<close> followed by \<^verbatim>\<open>.loc[peak_idx, ...]\<close>: the first row
  holding the largest estimate, NaN skipped. When every estimate is NaN there is no such
  row and the lookup raises.
\<close>

definition peak_step :: "forecast_row option \<Rightarrow> forecast_row \<Rightarrow> forecast_row option" where
  "peak_step best r =
     (if is_nan (yhat r) then best
      else case best of
             None \<Rightarrow> Some r
           | Some b \<Rightarrow> if f_gt (yhat r) (yhat b) then Some r else Some b)"

definition idxmax_row :: "forecast_row list \<Rightarrow> error + forecast_row" where
  "idxmax_row rows = (case foldl peak_step None rows of None \<Rightarrow> Inl KeyError | Some r \<Rightarrow> Inr r)"

text \<open>Rule 1, the trend.\<close>

definition trend_pct_of :: "f64 \<Rightarrow> f64 \<Rightarrow> f64" where
  "trend_pct_of future_val current_val =
     f_mul (f_div (f_sub future_val current_val) current_val) (Fin 100)"

definition direction_of :: "f64 \<Rightarrow> direction" where
  "direction_of trend_pct = (if f_gt trend_pct (Fin 0) then Growth else Decline)"

definition intensity_of :: "f64 \<Rightarrow> intensity" where
  "intensity_of trend_pct =
     (if f_gt (f_abs trend_pct) (Fin 10) then Significant
      else if f_gt (f_abs trend_pct) (Fin 3) then Moderate
      else Minimal)"

definition trend_recommendation :: "f64 \<Rightarrow> recommendation" where
  "trend_recommendation trend_pct =
     (if direction_of trend_pct = Growth then
        (if f_gt (f_abs trend_pct) (Fin 10) then ScaleOperations else MonitorSteadyGrowth)
      else CostOptimization)"

text \<open>Rule 3, the anomaly summary: the insights and the recommendations it appends.\<close>

definition anomaly_summary :: "anomaly list \<Rightarrow> insight list \<times> recommendation list" where
  "anomaly_summary anomalies =
     (if anomalies \<noteq> [] then
        let high_severity = filter (\<lambda>a. severity_level a = High) anomalies;
            (ins, recs) =
              (if high_severity \<noteq> []
               then ([CriticalVolatility (length high_severity)], [RiskMitigation])
               else ([], []))
        in (ins @ [StatisticalStability (length anomalies)], recs)
      else ([OperationalStability], []))"

text \<open>Rule 4, the confidence interval of the last forecast row.\<close>

definition spread_of :: "forecast_row \<Rightarrow> f64" where
  "spread_of last_point =
     f_mul (f_div (f_sub (yhat_upper last_point) (yhat_lower last_point)) (yhat last_point))
       (Fin 100)"

definition confidence :: "forecast_row \<Rightarrow> insight list \<times> recommendation list" where
  "confidence last_point =
     (if f_lt (spread_of last_point) (Fin 15) then ([HighConfidence], [])
      else ([VariableForecast], [DataRefinement]))"

text \<open>
  Rule 2, the peak: the forecast rows after the last historical date; nothing is appended
  when there is none. The rule is reached only once \<^verbatim>\<open>history['y'].iloc[-1]\<close> has succeeded,
  so with a history that is not empty.
\<close>

definition peak :: "forecast_row list \<Rightarrow> history_row list
    \<Rightarrow> error + insight list \<times> recommendation list" where
  "peak forecast history =
     (let future_forecast = filter (\<lambda>f. f_ds f > Max (set (map ds history))) forecast
      in if future_forecast \<noteq> [] then
           (case idxmax_row future_forecast of
              Inl e \<Rightarrow> Inl e
            | Inr p \<Rightarrow> Inr ([ForecastPeak (yhat p) (f_ds p)], [PeakReadiness (f_ds p)]))
         else Inr ([], []))"

definition generate_insights :: "forecast_row list \<Rightarrow> anomaly list \<Rightarrow> history_row list
    \<Rightarrow> error + insight_set" where
  "generate_insights forecast anomalies history =
     (case iloc_last history of
        Inl e \<Rightarrow> Inl e
      | Inr current_row \<Rightarrow>
     (case iloc_last forecast of
        Inl e \<Rightarrow> Inl e
      | Inr last_point \<Rightarrow>
          let trend_pct = trend_pct_of (yhat last_point) (y current_row);
              ins1 = [TrendInsight (intensity_of trend_pct) (direction_of trend_pct)
                        (f_abs trend_pct)];
              recs1 = [trend_recommendation trend_pct]
          in (case peak forecast history of
                Inl e \<Rightarrow> Inl e
              | Inr (ins2, recs2) \<Rightarrow>
                  let (ins3, recs3) = anomaly_summary anomalies;
                      (ins4, recs4) = confidence last_point
                  in Inr \<lparr>insights = ins1 @ ins2 @ ins3 @ ins4,
                          recommendations = recs1 @ recs2 @ recs3 @ recs4\<rparr>)))"

text \<open>
  The rule of the pipeline an insight comes from (1 the trend, 2 the peak, 3 the anomaly
  summary, 4 the confidence), and the recommendations the trend rule chooses from.
\<close>

fun rule_of :: "insight \<Rightarrow> nat" where
  "rule_of (TrendInsight i d v) = 1"
| "rule_of (ForecastPeak v t) = 2"
| "rule_of (CriticalVolatility n) = 3"
| "rule_of (StatisticalStability n) = 3"
| "rule_of OperationalStability = 3"
| "rule_of HighConfidence = 4"
| "rule_of VariableForecast = 4"

fun is_trend_recommendation :: "recommendation \<Rightarrow> bool" where
  "is_trend_recommendation ScaleOperations = True"
| "is_trend_recommendation MonitorSteadyGrowth = True"
| "is_trend_recommendation CostOptimization = True"
| "is_trend_recommendation _ = False"

section \<open>Properties of the anomaly detector\<close>

lemma f_lt_NaN_right: "f_lt a NaN = False"
  by (cases a) simp_all

lemma classify_Medium:
  "classify_severity pct = Medium \<longleftrightarrow> f_gt pct (Fin 10) \<and> f_le pct (Fin 20)"
  by (cases pct) (auto simp: classify_severity_def f_gt_def f_le_def)

lemma classify_Low: "classify_severity pct = Low \<longleftrightarrow> f_le pct (Fin 10) \<or> is_nan pct"
  by (cases pct) (auto simp: classify_severity_def f_gt_def f_le_def)

text \<open>
  Claim C1, as the code has it. The level is High exactly when \<open>pct > 20\<close> and Medium exactly
  when \<open>10 < pct \<le> 20\<close>, with \<open>pct = 20\<close> Medium and \<open>pct = 10\<close> Low. The level is Low exactly
  when \<open>pct \<le> 10\<close> or \<open>pct\<close> is NaN: a NaN fails both tests of \<^verbatim>\<open>classify_severity\<close> and falls
  through to \<^verbatim>\<open>'Low'\<close>, although \<open>NaN \<le> 10\<close> is false. The level stored with an anomaly is the
  class of its severity percentage.
\<close>

theorem severity_level_thresholds:
  "(classify_severity pct = High \<longleftrightarrow> f_gt pct (Fin 20)) \<and>
   (classify_severity pct = Medium \<longleftrightarrow> f_gt pct (Fin 10) \<and> f_le pct (Fin 20)) \<and>
   (classify_severity pct = Low \<longleftrightarrow> f_le pct (Fin 10) \<or> is_nan pct) \<and>
   classify_severity (Fin 20) = Medium \<and> classify_severity (Fin 10) = Low \<and>
   severity_level (anomaly_row m) = classify_severity (severity_pct m)"
proof -
  have "classify_severity pct = High \<longleftrightarrow> f_gt pct (Fin 20)"
    by (simp add: classify_severity_def)
  moreover have "classify_severity (Fin 20) = Medium" "classify_severity (Fin 10) = Low"
    by (simp_all add: classify_severity_def f_gt_def)
  moreover have "severity_level (anomaly_row m) = classify_severity (severity_pct m)"
    by (simp add: anomaly_row_def)
  ultimately show ?thesis
    using classify_Medium [of pct] classify_Low [of pct] by blast
qed

theorem severity_level_thresholds_witness:
  "classify_severity (Fin 25) = High \<and> f_gt (Fin 25) (Fin 20) \<and>
   classify_severity (Fin 15) = Medium \<and> classify_severity (Fin 5) = Low \<and>
   classify_severity PInf = High \<and> classify_severity NInf = Low"
  using severity_level_thresholds [of "Fin 25"]
  by (simp add: classify_severity_def f_gt_def)

text \<open>
  Claim C1 as stated fails where the percentage is NaN. The historical value 0 with the
  forecast row (lower 1, upper 2, estimate 0) is flagged, since \<open>0 < 1\<close>; its percentage is
  \<open>|0 - 0| / 0 * 100\<close>, NaN; its level is Low, and \<open>NaN \<le> 10\<close> does not hold.
\<close>

theorem severity_level_nan_counterexample:
  "map severity_level
     (detect_anomalies [\<lparr>f_ds = 0, yhat_lower = Fin 1, yhat_upper = Fin 2, yhat = Fin 0\<rparr>]
        [\<lparr>ds = 0, y = Fin 0\<rparr>]) = [Low] \<and>
   severity_pct \<lparr>m_ds = 0, m_y = Fin 0, m_yhat_lower = Fin 1, m_yhat_upper = Fin 2,
     m_yhat = Fin 0\<rparr> = NaN \<and>
   \<not> f_le NaN (Fin 10) \<and>
   \<not> (classify_severity NaN = Low \<longleftrightarrow> f_le NaN (Fin 10))"
  by (simp add: detect_anomalies_def merge_on_ds_def join_rows_def is_anomaly_def anomaly_row_def
      severity_pct_def classify_severity_def f_gt_def f_le_def f_sub_def f_add_def f_div_def
      f_mul_def)

lemma merged_set:
  "set (merge_on_ds actuals forecast) =
     {join_rows h f | h f. h \<in> set actuals \<and> f \<in> set forecast \<and> f_ds f = ds h}"
  by (auto simp: merge_on_ds_def)

lemma detect_anomalies_set:
  "set (detect_anomalies forecast actuals) =
     anomaly_row ` {m \<in> set (merge_on_ds actuals forecast). is_anomaly m}"
proof (cases "filter is_anomaly (merge_on_ds actuals forecast) = []")
  case True
  then have "{m \<in> set (merge_on_ds actuals forecast). is_anomaly m} = {}"
    by (simp add: filter_empty_conv)
  with True show ?thesis by (simp add: detect_anomalies_def)
next
  case False
  then show ?thesis by (simp add: detect_anomalies_def Let_def)
qed

lemma inside_not_anomalous:
  assumes "f_le lo e" "f_le e up" "f_eq v e"
  shows "\<not> f_lt v lo \<and> \<not> f_gt v up"
  using assms by (cases lo; cases e; cases up; cases v) (auto simp: f_le_def f_gt_def)

lemma is_anomaly_join:
  "is_anomaly (join_rows h f) \<longleftrightarrow> f_lt (y h) (yhat_lower f) \<or> f_gt (y h) (yhat_upper f)"
  by (simp add: is_anomaly_def join_rows_def)

text \<open>
  Claim C2, as the code has it. A joined point is flagged exactly when \<open>actual < lower\<close> or
  \<open>actual > upper\<close>, and the rows \<^verbatim>\<open>detect_anomalies\<close> returns are exactly the rows built from
  a historical point and a forecast point of the same date that are flagged. For a forecast
  point that satisfies \<open>lower \<le> estimate \<le> upper\<close>, a point whose actual value equals the
  estimate is not flagged, whatever the width of the interval; and when every forecast point
  satisfies it, no returned row has its actual value equal to its estimate. The code does
  not check that the estimate lies in the interval.
\<close>

theorem anomaly_flag_rule:
  "(is_anomaly m \<longleftrightarrow> f_lt (m_y m) (m_yhat_lower m) \<or> f_gt (m_y m) (m_yhat_upper m)) \<and>
   (a \<in> set (detect_anomalies forecast actuals) \<longleftrightarrow>
      (\<exists>h \<in> set actuals. \<exists>f \<in> set forecast. f_ds f = ds h \<and>
         (f_lt (y h) (yhat_lower f) \<or> f_gt (y h) (yhat_upper f)) \<and>
         a = anomaly_row (join_rows h f))) \<and>
   (f_le (m_yhat_lower m) (m_yhat m) \<and> f_le (m_yhat m) (m_yhat_upper m) \<and>
      f_eq (m_y m) (m_yhat m) \<longrightarrow> \<not> is_anomaly m) \<and>
   ((\<forall>f \<in> set forecast. f_le (yhat_lower f) (yhat f) \<and> f_le (yhat f) (yhat_upper f)) \<and>
      a \<in> set (detect_anomalies forecast actuals) \<longrightarrow> \<not> f_eq (a_y a) (a_yhat a))"
proof (intro conjI impI)
  show "is_anomaly m \<longleftrightarrow> f_lt (m_y m) (m_yhat_lower m) \<or> f_gt (m_y m) (m_yhat_upper m)"
    by (simp add: is_anomaly_def)
next
  show "a \<in> set (detect_anomalies forecast actuals) \<longleftrightarrow>
      (\<exists>h \<in> set actuals. \<exists>f \<in> set forecast. f_ds f = ds h \<and>
         (f_lt (y h) (yhat_lower f) \<or> f_gt (y h) (yhat_upper f)) \<and>
         a = anomaly_row (join_rows h f))"
  proof -
    have "a \<in> set (detect_anomalies forecast actuals) \<longleftrightarrow>
        (\<exists>m. m \<in> set (merge_on_ds actuals forecast) \<and> is_anomaly m \<and> a = anomaly_row m)"
      by (auto simp: detect_anomalies_set)
    also have "\<dots> \<longleftrightarrow> (\<exists>h f. h \<in> set actuals \<and> f \<in> set forecast \<and> f_ds f = ds h \<and>
        is_anomaly (join_rows h f) \<and> a = anomaly_row (join_rows h f))"
      unfolding merged_set by blast
    finally show ?thesis
      unfolding is_anomaly_join by blast
  qed
next
  assume "f_le (m_yhat_lower m) (m_yhat m) \<and> f_le (m_yhat m) (m_yhat_upper m) \<and>
      f_eq (m_y m) (m_yhat m)"
  then show "\<not> is_anomaly m"
    using inside_not_anomalous [of "m_yhat_lower m" "m_yhat m" "m_yhat_upper m" "m_y m"]
    by (simp add: is_anomaly_def)
next
  assume A: "(\<forall>f \<in> set forecast. f_le (yhat_lower f) (yhat f) \<and> f_le (yhat f) (yhat_upper f)) \<and>
      a \<in> set (detect_anomalies forecast actuals)"
  then obtain h f where hf: "h \<in> set actuals" "f \<in> set forecast" "f_ds f = ds h"
      "is_anomaly (join_rows h f)" "a = anomaly_row (join_rows h f)"
    unfolding detect_anomalies_set merged_set by auto
  from A hf(2) have inv: "f_le (yhat_lower f) (yhat f)" "f_le (yhat f) (yhat_upper f)"
    by auto
  show "\<not> f_eq (a_y a) (a_yhat a)"
  proof
    assume "f_eq (a_y a) (a_yhat a)"
    then have "f_eq (y h) (yhat f)"
      by (simp add: hf(5) anomaly_row_def join_rows_def)
    with inv have "\<not> f_lt (y h) (yhat_lower f) \<and> \<not> f_gt (y h) (yhat_upper f)"
      by (rule inside_not_anomalous)
    with hf(4) show False
      by (simp add: is_anomaly_def join_rows_def)
  qed
qed

theorem anomaly_flag_rule_witness:
  "f_le (Fin 1) (Fin 5) \<and> f_le (Fin 5) (Fin 9) \<and> f_eq (Fin 5) (Fin 5) \<and>
   \<not> is_anomaly \<lparr>m_ds = 0, m_y = Fin 5, m_yhat_lower = Fin 1, m_yhat_upper = Fin 9,
      m_yhat = Fin 5\<rparr> \<and>
   anomaly_row \<lparr>m_ds = 0, m_y = Fin 20, m_yhat_lower = Fin 1, m_yhat_upper = Fin 9,
      m_yhat = Fin 5\<rparr>
     \<in> set (detect_anomalies [\<lparr>f_ds = 0, yhat_lower = Fin 1, yhat_upper = Fin 9, yhat = Fin 5\<rparr>]
         [\<lparr>ds = 0, y = Fin 20\<rparr>]) \<and>
   \<not> f_eq (Fin 20) (Fin 5)"
  using anomaly_flag_rule [of
      "\<lparr>m_ds = 0, m_y = Fin 5, m_yhat_lower = Fin 1, m_yhat_upper = Fin 9, m_yhat = Fin 5\<rparr>"
      "anomaly_row \<lparr>m_ds = 0, m_y = Fin 20, m_yhat_lower = Fin 1, m_yhat_upper = Fin 9,
         m_yhat = Fin 5\<rparr>"
      "[\<lparr>f_ds = 0, yhat_lower = Fin 1, yhat_upper = Fin 9, yhat = Fin 5\<rparr>]"
      "[\<lparr>ds = 0, y = Fin 20\<rparr>]"]
  by (simp add: f_le_def f_gt_def join_rows_def)

text \<open>
  Claim C2 as stated fails for a forecast point whose estimate lies outside its interval. The
  historical value 5 with the forecast row (lower 1, upper 2, estimate 5) equals the estimate
  exactly and is flagged, since \<open>5 > 2\<close>: \<^verbatim>\<open>detect_anomalies\<close> returns it.
\<close>

theorem equal_estimate_flagged_counterexample:
  "f_eq (Fin 5) (Fin 5) \<and>
   is_anomaly \<lparr>m_ds = 0, m_y = Fin 5, m_yhat_lower = Fin 1, m_yhat_upper = Fin 2,
      m_yhat = Fin 5\<rparr> \<and>
   detect_anomalies [\<lparr>f_ds = 0, yhat_lower = Fin 1, yhat_upper = Fin 2, yhat = Fin 5\<rparr>]
     [\<lparr>ds = 0, y = Fin 5\<rparr>]
     = [\<lparr>a_ds = 0, a_y = Fin 5, a_yhat = Fin 5, a_yhat_lower = Fin 1, a_yhat_upper = Fin 2,
         severity = Fin 0, severity_level = Low\<rparr>]"
  by (simp add: detect_anomalies_def merge_on_ds_def join_rows_def is_anomaly_def anomaly_row_def
      severity_pct_def classify_severity_def f_gt_def f_sub_def f_add_def f_div_def f_mul_def
      f_zero_def)

lemma severity_pct_zero_estimate:
  assumes "\<not> is_nan v" "\<not> f_eq v (Fin 0)" "is_zero e"
  shows "f_mul (f_div (f_abs (f_sub v e)) e) (Fin 100) = f_inf (sign_bit e)"
  using assms
  by (cases v; cases e) (auto simp: f_sub_def f_add_def f_div_def f_mul_def f_inf_def)

lemma anomalous_not_nan: "is_anomaly m \<Longrightarrow> \<not> is_nan (m_y m)"
  by (cases "m_y m") (auto simp: is_anomaly_def f_gt_def f_lt_NaN_right)

text \<open>
  Claim C8, as the code has it. The division by the estimate is not guarded. For a flagged
  point whose estimate equals zero and whose actual value does not, the percentage is an
  infinity with the sign of the zero: for the estimate \<open>+0.0\<close> it is \<open>+inf\<close> and the level is
  High; for the estimate \<open>-0.0\<close> it is \<open>-inf\<close>, which is not above 20, and the level is Low.
\<close>

theorem zero_estimate_severity:
  assumes "is_anomaly m" and "f_eq (m_yhat m) (Fin 0)" and "\<not> f_eq (m_y m) (Fin 0)"
  shows "(m_yhat m = Fin 0 \<longrightarrow>
            severity_pct m = PInf \<and> severity_level (anomaly_row m) = High) \<and>
         (m_yhat m = NegZero \<longrightarrow>
            severity_pct m = NInf \<and> severity_level (anomaly_row m) = Low) \<and>
         (m_yhat m = Fin 0 \<or> m_yhat m = NegZero)"
proof -
  from assms(2) have z: "is_zero (m_yhat m)" and cases: "m_yhat m = Fin 0 \<or> m_yhat m = NegZero"
    by (cases "m_yhat m"; simp)+
  from assms(1) have "\<not> is_nan (m_y m)" by (rule anomalous_not_nan)
  then have pct: "severity_pct m = f_inf (sign_bit (m_yhat m))"
    unfolding severity_pct_def using assms(3) z by (rule severity_pct_zero_estimate)
  show ?thesis
    using pct cases
    by (auto simp: anomaly_row_def classify_severity_def f_inf_def f_gt_def)
qed

theorem zero_estimate_severity_witness:
  "is_anomaly \<lparr>m_ds = 0, m_y = Fin 5, m_yhat_lower = Fin (- 1), m_yhat_upper = Fin 1,
      m_yhat = Fin 0\<rparr> \<and>
   f_eq (Fin 0) (Fin 0) \<and> \<not> f_eq (Fin 5) (Fin 0) \<and>
   severity_pct \<lparr>m_ds = 0, m_y = Fin 5, m_yhat_lower = Fin (- 1), m_yhat_upper = Fin 1,
      m_yhat = Fin 0\<rparr> = PInf \<and>
   severity_level (anomaly_row \<lparr>m_ds = 0, m_y = Fin 5, m_yhat_lower = Fin (- 1),
      m_yhat_upper = Fin 1, m_yhat = Fin 0\<rparr>) = High"
  using zero_estimate_severity [of
      "\<lparr>m_ds = 0, m_y = Fin 5, m_yhat_lower = Fin (- 1), m_yhat_upper = Fin 1, m_yhat = Fin 0\<rparr>"]
  by (simp add: is_anomaly_def f_gt_def)

text \<open>
  Claim C8 as stated fails for the estimate \<open>-0.0\<close>, which equals 0. The historical value 5
  with the forecast row (lower -1, upper 1, estimate \<open>-0.0\<close>) satisfies the invariant of a
  forecast point and is flagged, since \<open>5 > 1\<close>; its percentage is \<open>5 / -0.0 * 100\<close>, minus
  infinity, and its level is Low, not High.
\<close>

theorem zero_estimate_negative_zero_counterexample:
  "detect_anomalies [\<lparr>f_ds = 0, yhat_lower = Fin (- 1), yhat_upper = Fin 1, yhat = NegZero\<rparr>]
     [\<lparr>ds = 0, y = Fin 5\<rparr>]
     = [\<lparr>a_ds = 0, a_y = Fin 5, a_yhat = NegZero, a_yhat_lower = Fin (- 1),
         a_yhat_upper = Fin 1, severity = Fin 5, severity_level = Low\<rparr>] \<and>
   f_eq NegZero (Fin 0) \<and> \<not> f_eq (Fin 5) (Fin 0) \<and>
   f_le (Fin (- 1)) NegZero \<and> f_le NegZero (Fin 1) \<and>
   severity_pct \<lparr>m_ds = 0, m_y = Fin 5, m_yhat_lower = Fin (- 1), m_yhat_upper = Fin 1,
      m_yhat = NegZero\<rparr> = NInf"
  by (simp add: detect_anomalies_def merge_on_ds_def join_rows_def is_anomaly_def anomaly_row_def
      severity_pct_def classify_severity_def f_gt_def f_le_def f_sub_def f_add_def f_div_def
      f_mul_def f_inf_def)

section \<open>Properties of the metrics calculator\<close>

lemma f_add_not_finite_left: "\<not> is_finite a \<Longrightarrow> \<not> is_finite (f_add a b)"
  by (cases a; cases b) (auto simp: is_finite_def f_add_def)

lemma f_add_not_finite_right: "\<not> is_finite b \<Longrightarrow> \<not> is_finite (f_add a b)"
  by (cases a; cases b) (auto simp: is_finite_def f_add_def)

lemma foldl_f_add_not_finite_acc: "\<not> is_finite a \<Longrightarrow> \<not> is_finite (foldl f_add a xs)"
  by (induction xs arbitrary: a) (simp_all add: f_add_not_finite_left)

lemma foldl_f_add_not_finite_elem:
  "x \<in> set xs \<Longrightarrow> \<not> is_finite x \<Longrightarrow> \<not> is_finite (foldl f_add a xs)"
proof (induction xs arbitrary: a)
  case Nil
  then show ?case by simp
next
  case (Cons z zs)
  show ?case
  proof (cases "x = z")
    case True
    with Cons.prems have "\<not> is_finite (f_add a z)" by (simp add: f_add_not_finite_right)
    then show ?thesis by (simp add: foldl_f_add_not_finite_acc)
  next
    case False
    with Cons.prems have "x \<in> set zs" by simp
    then show ?thesis using Cons.IH Cons.prems(2) by simp
  qed
qed

lemma f_sum_not_finite: "x \<in> set xs \<Longrightarrow> \<not> is_finite x \<Longrightarrow> \<not> is_finite (f_sum xs)"
proof (cases xs)
  case Nil
  assume "x \<in> set xs" with Nil show ?thesis by simp
next
  case (Cons z zs)
  assume x: "x \<in> set xs" and nf: "\<not> is_finite x"
  show ?thesis
  proof (cases "x = z")
    case True
    with nf Cons show ?thesis by (simp add: foldl_f_add_not_finite_acc)
  next
    case False
    with x Cons have "x \<in> set zs" by simp
    with nf Cons show ?thesis by (simp add: foldl_f_add_not_finite_elem)
  qed
qed

lemma f_div_count_not_finite: "\<not> is_finite s \<Longrightarrow> \<not> is_finite (f_div s (Fin (real (Suc n))))"
  by (cases s) (auto simp: is_finite_def f_div_def f_inf_def)

lemma f_mean_not_finite:
  assumes "x \<in> set xs" "\<not> is_finite x"
  shows "\<not> is_finite (f_mean xs)"
proof -
  from assms(1) obtain n where n: "length xs = Suc n" by (cases xs) auto
  from assms have "\<not> is_finite (f_sum xs)" by (rule f_sum_not_finite)
  then show ?thesis unfolding f_mean_def n by (rule f_div_count_not_finite)
qed

lemma f_mul_100_not_finite: "\<not> is_finite s \<Longrightarrow> \<not> is_finite (f_mul s (Fin 100))"
  by (cases s) (auto simp: is_finite_def f_mul_def f_inf_def)

lemma zero_actual_term:
  assumes "f_eq t (Fin 0)" "\<not> is_nan p"
  shows "\<not> is_finite (f_abs (f_div (f_sub t p) t))"
  using assms
  by (cases t; cases p) (auto simp: is_finite_def f_sub_def f_add_def f_div_def f_inf_def)

lemma mape_term_zero_actual:
  assumes "(t, p) \<in> set ps" "f_eq t (Fin 0)" "\<not> is_nan p"
  shows "\<not> is_finite (mape_term ps)"
proof -
  from assms(1) have "f_abs (f_div (f_sub t p) t) \<in> set (map (\<lambda>(t, p). f_abs (f_div (f_sub t p) t)) ps)"
    by force
  moreover from assms(2,3) have "\<not> is_finite (f_abs (f_div (f_sub t p) t))" by (rule zero_actual_term)
  ultimately have "\<not> is_finite (f_mean (map (\<lambda>(t, p). f_abs (f_div (f_sub t p) t)) ps))"
    by (rule f_mean_not_finite)
  then show ?thesis unfolding mape_term_def by (rule f_mul_100_not_finite)
qed

lemma py_round_zero: "py_round (Fin 0) n = Fin 0"
  by (simp add: rint_def Let_def f_zero_def)

lemma calculate_metrics_guarded:
  assumes "length y_true = length y_pred" "valid_pairs y_true y_pred \<noteq> []"
    "\<not> is_finite (mape_term (valid_pairs y_true y_pred))"
  shows "calculate_metrics y_true y_pred =
     Inr \<lparr>MAE = py_round (mae_of (valid_pairs y_true y_pred)) 4,
          RMSE = py_round (rmse_of (valid_pairs y_true y_pred)) 4, MAPE = Fin 0\<rparr>"
proof -
  let ?ps = "valid_pairs y_true y_pred"
  have g: "(if is_inf (mape_term ?ps) \<or> is_nan (mape_term ?ps) then Fin 0 else mape_term ?ps) = Fin 0"
    using assms(3) by (auto simp: is_finite_def)
  show ?thesis
    using assms(1,2) unfolding calculate_metrics_def Let_def g
    by (simp add: py_round_zero del: py_round.simps)
qed

lemma valid_pairs_idem:
  "valid_pairs (map fst (valid_pairs ts ps)) (map snd (valid_pairs ts ps)) = valid_pairs ts ps"
  by (simp add: valid_pairs_def zip_map_fst_snd)

lemma calculate_metrics_valid_only:
  assumes "length y_true = length y_pred"
  shows "calculate_metrics y_true y_pred =
     calculate_metrics (map fst (valid_pairs y_true y_pred)) (map snd (valid_pairs y_true y_pred))"
  using assms by (simp add: calculate_metrics_def valid_pairs_idem)

lemma calculate_metrics_none_valid:
  assumes "length y_true = length y_pred" "valid_pairs y_true y_pred = []"
  shows "calculate_metrics y_true y_pred = Inr \<lparr>MAE = Fin 0, RMSE = Fin 0, MAPE = Fin 0\<rparr>"
  using assms by (simp add: calculate_metrics_def)

lemma valid_pairs_set:
  "set (valid_pairs y_true y_pred) =
     {(t, p). (t, p) \<in> set (zip y_true y_pred) \<and> \<not> is_nan t \<and> \<not> is_nan p}"
  by (auto simp: valid_pairs_def)

lemma inf_pair_abs:
  assumes "\<not> is_nan t" "\<not> is_nan p" "is_inf t \<or> is_inf p"
  shows "\<not> is_finite (f_abs (f_sub t p))"
  using assms by (cases t; cases p) (auto simp: is_finite_def f_sub_def f_add_def)

lemma inf_pair_square:
  assumes "\<not> is_nan t" "\<not> is_nan p" "is_inf t \<or> is_inf p"
  shows "\<not> is_finite (f_mul (f_sub t p) (f_sub t p))"
  using assms
  by (cases t; cases p) (auto simp: is_finite_def f_sub_def f_add_def f_mul_def f_inf_def)

lemma f_sqrt_not_finite: "\<not> is_finite x \<Longrightarrow> \<not> is_finite (f_sqrt x)"
  by (cases x) (auto simp: is_finite_def)

lemma py_round_not_finite: "\<not> is_finite x \<Longrightarrow> \<not> is_finite (py_round x n)"
  by (cases x) (auto simp: is_finite_def)

lemma mae_of_infinite_pair:
  assumes "(t, p) \<in> set ps" "\<not> is_nan t" "\<not> is_nan p" "is_inf t \<or> is_inf p"
  shows "\<not> is_finite (mae_of ps)"
proof -
  from assms(1) have "f_abs (f_sub t p) \<in> set (map (\<lambda>(t, p). f_abs (f_sub t p)) ps)"
    by force
  moreover from assms(2-4) have "\<not> is_finite (f_abs (f_sub t p))" by (rule inf_pair_abs)
  ultimately show ?thesis unfolding mae_of_def by (rule f_mean_not_finite)
qed

lemma rmse_of_infinite_pair:
  assumes "(t, p) \<in> set ps" "\<not> is_nan t" "\<not> is_nan p" "is_inf t \<or> is_inf p"
  shows "\<not> is_finite (rmse_of ps)"
proof -
  from assms(1) have "f_mul (f_sub t p) (f_sub t p)
      \<in> set (map (\<lambda>(t, p). f_mul (f_sub t p) (f_sub t p)) ps)"
    by force
  moreover from assms(2-4) have "\<not> is_finite (f_mul (f_sub t p) (f_sub t p))"
    by (rule inf_pair_square)
  ultimately have "\<not> is_finite (f_mean (map (\<lambda>(t, p). f_mul (f_sub t p) (f_sub t p)) ps))"
    by (rule f_mean_not_finite)
  then show ?thesis unfolding rmse_of_def by (rule f_sqrt_not_finite)
qed

lemma calculate_metrics_aggregates:
  assumes "length y_true = length y_pred" "valid_pairs y_true y_pred \<noteq> []"
  shows "\<exists>m. calculate_metrics y_true y_pred = Inr m \<and>
           MAE m = py_round (mae_of (valid_pairs y_true y_pred)) 4 \<and>
           RMSE m = py_round (rmse_of (valid_pairs y_true y_pred)) 4"
  using assms by (simp add: calculate_metrics_def Let_def del: py_round.simps)

text \<open>
  Claim C4, as the code has it. The pairs with a NaN on either side, and only those, are
  excluded before the three metrics are computed: the result is that of the remaining
  pairs, MAE and RMSE being the rounded aggregates over exactly those pairs. A pair that
  holds an infinity and no NaN is not excluded and enters the aggregates: with such a pair
  in the input, the returned MAE and RMSE are not finite. When no pair remains, the three
  metrics are 0.0.
\<close>

theorem metrics_exclude_nan_pairs:
  assumes "length y_true = length y_pred"
  shows "calculate_metrics y_true y_pred =
           calculate_metrics (map fst (valid_pairs y_true y_pred))
             (map snd (valid_pairs y_true y_pred)) \<and>
         set (valid_pairs y_true y_pred) =
           {(t, p). (t, p) \<in> set (zip y_true y_pred) \<and> \<not> is_nan t \<and> \<not> is_nan p} \<and>
         (valid_pairs y_true y_pred = [] \<longrightarrow>
            calculate_metrics y_true y_pred = Inr \<lparr>MAE = Fin 0, RMSE = Fin 0, MAPE = Fin 0\<rparr>) \<and>
         (valid_pairs y_true y_pred \<noteq> [] \<longrightarrow>
            (\<exists>m. calculate_metrics y_true y_pred = Inr m \<and>
               MAE m = py_round (mae_of (valid_pairs y_true y_pred)) 4 \<and>
               RMSE m = py_round (rmse_of (valid_pairs y_true y_pred)) 4)) \<and>
         ((\<exists>(t, p) \<in> set (zip y_true y_pred).
              \<not> is_nan t \<and> \<not> is_nan p \<and> (is_inf t \<or> is_inf p)) \<longrightarrow>
            (\<exists>m. calculate_metrics y_true y_pred = Inr m \<and>
               \<not> is_finite (MAE m) \<and> \<not> is_finite (RMSE m)))"
proof (intro conjI impI)
  show "calculate_metrics y_true y_pred =
      calculate_metrics (map fst (valid_pairs y_true y_pred)) (map snd (valid_pairs y_true y_pred))"
    using assms by (rule calculate_metrics_valid_only)
next
  show "set (valid_pairs y_true y_pred) =
      {(t, p). (t, p) \<in> set (zip y_true y_pred) \<and> \<not> is_nan t \<and> \<not> is_nan p}"
    by (rule valid_pairs_set)
next
  assume "valid_pairs y_true y_pred = []"
  with assms show "calculate_metrics y_true y_pred = Inr \<lparr>MAE = Fin 0, RMSE = Fin 0, MAPE = Fin 0\<rparr>"
    by (rule calculate_metrics_none_valid)
next
  assume "valid_pairs y_true y_pred \<noteq> []"
  with assms show "\<exists>m. calculate_metrics y_true y_pred = Inr m \<and>
      MAE m = py_round (mae_of (valid_pairs y_true y_pred)) 4 \<and>
      RMSE m = py_round (rmse_of (valid_pairs y_true y_pred)) 4"
    by (rule calculate_metrics_aggregates)
next
  assume "\<exists>(t, p) \<in> set (zip y_true y_pred).
      \<not> is_nan t \<and> \<not> is_nan p \<and> (is_inf t \<or> is_inf p)"
  then obtain t p where tp: "(t, p) \<in> set (zip y_true y_pred)" "\<not> is_nan t" "\<not> is_nan p"
      "is_inf t \<or> is_inf p"
    by auto
  then have mem: "(t, p) \<in> set (valid_pairs y_true y_pred)"
    by (simp add: valid_pairs_set)
  then have ne: "valid_pairs y_true y_pred \<noteq> []" by auto
  from calculate_metrics_aggregates [OF assms ne] obtain m where
    m: "calculate_metrics y_true y_pred = Inr m"
      "MAE m = py_round (mae_of (valid_pairs y_true y_pred)) 4"
      "RMSE m = py_round (rmse_of (valid_pairs y_true y_pred)) 4"
    by blast
  from mem tp(2-4) have "\<not> is_finite (mae_of (valid_pairs y_true y_pred))"
    by (rule mae_of_infinite_pair)
  then have a: "\<not> is_finite (MAE m)" unfolding m(2) by (rule py_round_not_finite)
  from mem tp(2-4) have "\<not> is_finite (rmse_of (valid_pairs y_true y_pred))"
    by (rule rmse_of_infinite_pair)
  then have b: "\<not> is_finite (RMSE m)" unfolding m(3) by (rule py_round_not_finite)
  from m(1) a b show "\<exists>m. calculate_metrics y_true y_pred = Inr m \<and>
      \<not> is_finite (MAE m) \<and> \<not> is_finite (RMSE m)"
    by blast
qed

theorem metrics_exclude_nan_pairs_witness:
  "length [Fin 3, NaN] = length [Fin 1, Fin 2] \<and>
   calculate_metrics [Fin 3, NaN] [Fin 1, Fin 2] = calculate_metrics [Fin 3] [Fin 1] \<and>
   length [NaN, Fin 4] = length [Fin 1, NaN] \<and>
   valid_pairs [NaN, Fin 4] [Fin 1, NaN] = [] \<and>
   calculate_metrics [NaN, Fin 4] [Fin 1, NaN] = Inr \<lparr>MAE = Fin 0, RMSE = Fin 0, MAPE = Fin 0\<rparr> \<and>
   length [Fin 2, NInf] = length [Fin 1, Fin 1] \<and>
   (NInf, Fin 1) \<in> set (zip [Fin 2, NInf] [Fin 1, Fin 1]) \<and> is_inf NInf \<and>
   (\<exists>m. calculate_metrics [Fin 2, NInf] [Fin 1, Fin 1] = Inr m \<and>
      \<not> is_finite (MAE m) \<and> \<not> is_finite (RMSE m))"
proof -
  have v1: "valid_pairs [Fin 3, NaN] [Fin 1, Fin 2] = [(Fin 3, Fin 1)]"
    by (simp add: valid_pairs_def)
  have v2: "valid_pairs [NaN, Fin 4] [Fin 1, NaN] = []"
    by (simp add: valid_pairs_def)
  have l1: "length [Fin 3, NaN] = length [Fin 1, Fin 2]"
    and l2: "length [NaN, Fin 4] = length [Fin 1, NaN]"
    and l3: "length [Fin 2, NInf] = length [Fin 1, Fin 1]"
    by simp_all
  have i3: "(NInf, Fin 1) \<in> set (zip [Fin 2, NInf] [Fin 1, Fin 1])" "is_inf NInf"
    by simp_all
  from metrics_exclude_nan_pairs [OF l1]
  have "calculate_metrics [Fin 3, NaN] [Fin 1, Fin 2] = calculate_metrics [Fin 3] [Fin 1]"
    unfolding v1 by simp
  moreover from metrics_exclude_nan_pairs [OF l2] v2
  have "calculate_metrics [NaN, Fin 4] [Fin 1, NaN] =
      Inr \<lparr>MAE = Fin 0, RMSE = Fin 0, MAPE = Fin 0\<rparr>"
    by blast
  moreover have "\<exists>(t, p) \<in> set (zip [Fin 2, NInf] [Fin 1, Fin 1]).
      \<not> is_nan t \<and> \<not> is_nan p \<and> (is_inf t \<or> is_inf p)"
    by simp
  with metrics_exclude_nan_pairs [OF l3]
  have "\<exists>m. calculate_metrics [Fin 2, NInf] [Fin 1, Fin 1] = Inr m \<and>
      \<not> is_finite (MAE m) \<and> \<not> is_finite (RMSE m)"
    by blast
  ultimately show ?thesis using l1 l2 l3 v2 i3 by blast
qed

text \<open>
  Claim C4 as stated fails for a value that is not finite and not NaN. The only pair of
  \<^verbatim>\<open>y_true = [inf]\<close>, \<^verbatim>\<open>y_pred = [1.0]\<close> holds a non-finite value, yet it passes the mask: MAE
  and RMSE are infinite, not 0.0.
\<close>

theorem metrics_infinite_pair_counterexample:
  "calculate_metrics [PInf] [Fin 1] = Inr \<lparr>MAE = PInf, RMSE = PInf, MAPE = Fin 0\<rparr> \<and>
   \<not> is_finite PInf \<and> valid_pairs [PInf] [Fin 1] = [(PInf, Fin 1)]"
  by (simp add: calculate_metrics_def valid_pairs_def mae_of_def rmse_of_def mape_term_def
      f_mean_def f_sub_def f_add_def f_div_def f_mul_def f_inf_def rint_def f_zero_def
      is_finite_def)

text \<open>
  Claim C5, as the code has it. Whenever the mean absolute percentage term of the pairs that
  remain is not finite, the returned MAPE is exactly 0.0, and MAE and RMSE are the rounded
  values they are when the term is finite. That is so, in particular, whenever the actual
  value of a pair that is not excluded (its prediction is not NaN) equals 0.
\<close>

theorem mape_guard:
  assumes "length y_true = length y_pred"
  shows "(valid_pairs y_true y_pred \<noteq> [] \<and> \<not> is_finite (mape_term (valid_pairs y_true y_pred)) \<longrightarrow>
            calculate_metrics y_true y_pred =
              Inr \<lparr>MAE = py_round (mae_of (valid_pairs y_true y_pred)) 4,
                   RMSE = py_round (rmse_of (valid_pairs y_true y_pred)) 4,
                   MAPE = Fin 0\<rparr>) \<and>
         (valid_pairs y_true y_pred \<noteq> [] \<and> is_finite (mape_term (valid_pairs y_true y_pred)) \<longrightarrow>
            calculate_metrics y_true y_pred =
              Inr \<lparr>MAE = py_round (mae_of (valid_pairs y_true y_pred)) 4,
                   RMSE = py_round (rmse_of (valid_pairs y_true y_pred)) 4,
                   MAPE = py_round (mape_term (valid_pairs y_true y_pred)) 2\<rparr>) \<and>
         ((\<exists>(t, p) \<in> set (zip y_true y_pred). f_eq t (Fin 0) \<and> \<not> is_nan p) \<longrightarrow>
            \<not> is_finite (mape_term (valid_pairs y_true y_pred)) \<and>
            (\<exists>m. calculate_metrics y_true y_pred = Inr m \<and> MAPE m = Fin 0))"
proof (intro conjI impI)
  assume "valid_pairs y_true y_pred \<noteq> [] \<and> \<not> is_finite (mape_term (valid_pairs y_true y_pred))"
  with assms show "calculate_metrics y_true y_pred =
      Inr \<lparr>MAE = py_round (mae_of (valid_pairs y_true y_pred)) 4,
           RMSE = py_round (rmse_of (valid_pairs y_true y_pred)) 4, MAPE = Fin 0\<rparr>"
    by (simp add: calculate_metrics_guarded)
next
  assume "valid_pairs y_true y_pred \<noteq> [] \<and> is_finite (mape_term (valid_pairs y_true y_pred))"
  with assms show "calculate_metrics y_true y_pred =
      Inr \<lparr>MAE = py_round (mae_of (valid_pairs y_true y_pred)) 4,
           RMSE = py_round (rmse_of (valid_pairs y_true y_pred)) 4,
           MAPE = py_round (mape_term (valid_pairs y_true y_pred)) 2\<rparr>"
    by (simp add: calculate_metrics_def Let_def is_finite_def del: py_round.simps)
next
  assume "\<exists>(t, p) \<in> set (zip y_true y_pred). f_eq t (Fin 0) \<and> \<not> is_nan p"
  then obtain t p where tp: "(t, p) \<in> set (zip y_true y_pred)" "f_eq t (Fin 0)" "\<not> is_nan p"
    by auto
  from tp(2) have "\<not> is_nan t" by (cases t) simp_all
  with tp have mem: "(t, p) \<in> set (valid_pairs y_true y_pred)"
    by (simp add: valid_pairs_set)
  then have ne: "valid_pairs y_true y_pred \<noteq> []" by auto
  from mem tp(2,3) have nf: "\<not> is_finite (mape_term (valid_pairs y_true y_pred))"
    by (rule mape_term_zero_actual)
  show "\<not> is_finite (mape_term (valid_pairs y_true y_pred))" by (rule nf)
  show "\<exists>m. calculate_metrics y_true y_pred = Inr m \<and> MAPE m = Fin 0"
    using calculate_metrics_guarded [OF assms ne nf] by simp
qed

theorem mape_guard_witness:
  "length [Fin 0, Fin 2] = length [Fin 1, Fin 1] \<and>
   (Fin 0, Fin 1) \<in> set (zip [Fin 0, Fin 2] [Fin 1, Fin 1]) \<and>
   f_eq (Fin 0) (Fin 0) \<and> \<not> is_nan (Fin 1) \<and>
   valid_pairs [Fin 0, Fin 2] [Fin 1, Fin 1] \<noteq> [] \<and>
   \<not> is_finite (mape_term (valid_pairs [Fin 0, Fin 2] [Fin 1, Fin 1])) \<and>
   (\<exists>m. calculate_metrics [Fin 0, Fin 2] [Fin 1, Fin 1] = Inr m \<and> MAPE m = Fin 0)"
  using mape_guard [of "[Fin 0, Fin 2]" "[Fin 1, Fin 1]"]
  by (simp add: valid_pairs_def)

text \<open>
  Claim C5 as stated fails when the only actual value equal to 0 belongs to an excluded pair.
  In \<^verbatim>\<open>y_true = [0.0, 2.0]\<close>, \<^verbatim>\<open>y_pred = [nan, 1.0]\<close> an actual value is 0, its pair is
  masked out, the term is \<open>|2 - 1| / 2 * 100 = 50\<close> and the returned MAPE is 50.0.
\<close>

theorem mape_excluded_zero_actual_counterexample:
  "calculate_metrics [Fin 0, Fin 2] [NaN, Fin 1] =
     Inr \<lparr>MAE = Fin 1, RMSE = Fin 1, MAPE = Fin 50\<rparr> \<and>
   f_eq (Fin 0) (Fin 0) \<and> mape_term (valid_pairs [Fin 0, Fin 2] [NaN, Fin 1]) = Fin 50"
  by (simp add: calculate_metrics_def valid_pairs_def mae_of_def rmse_of_def mape_term_def
      f_mean_def f_sub_def f_add_def f_div_def f_mul_def f_inf_def rint_def f_zero_def Let_def)

section \<open>Properties of the insight generator\<close>

lemma foldl_peak_step_mem:
  "foldl peak_step best rows = Some r \<Longrightarrow> best = Some r \<or> r \<in> set rows"
proof (induction rows arbitrary: best)
  case Nil
  then show ?case by simp
next
  case (Cons x xs)
  from Cons.prems have "foldl peak_step (peak_step best x) xs = Some r" by simp
  then have "peak_step best x = Some r \<or> r \<in> set xs" by (rule Cons.IH)
  then show ?case
    by (auto simp: peak_step_def split: if_splits option.splits)
qed

lemma idxmax_row_mem: "idxmax_row rows = Inr r \<Longrightarrow> r \<in> set rows"
  using foldl_peak_step_mem [of None rows r]
  by (auto simp: idxmax_row_def split: option.splits)

lemma peak_cases:
  assumes "peak forecast history = Inr (ins, recs)"
  shows "(ins = [] \<and> recs = []) \<or>
         (\<exists>p :: forecast_row. p \<in> set forecast \<and>
            ins = [ForecastPeak (yhat p) (f_ds p)] \<and> recs = [PeakReadiness (f_ds p)])"
proof -
  let ?ff = "filter (\<lambda>f. f_ds f > Max (set (map ds history))) forecast"
  show ?thesis
  proof (cases "?ff = []")
    case True
    with assms have "ins = [] \<and> recs = []" by (simp add: peak_def)
    then show ?thesis by simp
  next
    case False
    with assms obtain p where p: "idxmax_row ?ff = Inr p"
        "ins = [ForecastPeak (yhat p) (f_ds p)]" "recs = [PeakReadiness (f_ds p)]"
      by (auto simp: peak_def split: sum.splits)
    from p(1) have "p \<in> set ?ff" by (rule idxmax_row_mem)
    then have "p \<in> set forecast" by simp
    with p show ?thesis by blast
  qed
qed

lemma anomaly_summary_cases:
  "(anomalies = [] \<and> anomaly_summary anomalies = ([OperationalStability], [])) \<or>
   (anomalies \<noteq> [] \<and> filter (\<lambda>a. severity_level a = High) anomalies = [] \<and>
      anomaly_summary anomalies = ([StatisticalStability (length anomalies)], [])) \<or>
   (filter (\<lambda>a. severity_level a = High) anomalies \<noteq> [] \<and>
      anomaly_summary anomalies =
        ([CriticalVolatility (length (filter (\<lambda>a. severity_level a = High) anomalies)),
          StatisticalStability (length anomalies)], [RiskMitigation]))"
  by (auto simp: anomaly_summary_def Let_def)

lemma confidence_cases:
  "confidence p = ([HighConfidence], []) \<or> confidence p = ([VariableForecast], [DataRefinement])"
  by (simp add: confidence_def)

lemma generate_insights_Inr:
  assumes "generate_insights forecast anomalies history = Inr out"
  shows "\<exists>ins2 recs2. history \<noteq> [] \<and> forecast \<noteq> [] \<and> peak forecast history = Inr (ins2, recs2) \<and>
      insights out =
        TrendInsight (intensity_of (trend_pct_of (yhat (last forecast)) (y (last history))))
          (direction_of (trend_pct_of (yhat (last forecast)) (y (last history))))
          (f_abs (trend_pct_of (yhat (last forecast)) (y (last history))))
        # ins2 @ fst (anomaly_summary anomalies) @ fst (confidence (last forecast)) \<and>
      recommendations out =
        trend_recommendation (trend_pct_of (yhat (last forecast)) (y (last history)))
        # recs2 @ snd (anomaly_summary anomalies) @ snd (confidence (last forecast))"
  using assms
  by (auto simp: generate_insights_def iloc_last_def Let_def
      split: if_splits sum.splits prod.splits)

lemma trend_recommendation_is_trend: "is_trend_recommendation (trend_recommendation t)"
  by (simp add: trend_recommendation_def)

lemma sorted_rule_index:
  assumes "sorted (map rule_of xs)" "i < length xs" "j < length xs"
    "rule_of (xs ! j) < rule_of (xs ! i)"
  shows "j < i"
proof (rule ccontr)
  assume "\<not> j < i"
  then have "i \<le> j" by simp
  with assms(1,3) have "map rule_of xs ! i \<le> map rule_of xs ! j"
    by (simp add: sorted_iff_nth_mono del: nth_map)
  with assms show False by simp
qed

lemma sorted_map_const: "\<forall>x \<in> set xs. f x = (k::nat) \<Longrightarrow> sorted (map f xs)"
  by (induction xs) auto

lemma insights_shape:
  assumes "generate_insights forecast anomalies history = Inr out"
  shows "\<exists>t p s c. insights out = t # p @ s @ [c] \<and>
      (\<exists>i d v. t = TrendInsight i d v) \<and>
      (p = [] \<or> (\<exists>v d. p = [ForecastPeak v d])) \<and>
      (anomalies = [] \<and> s = [OperationalStability] \<or>
       anomalies \<noteq> [] \<and> (\<forall>a \<in> set anomalies. severity_level a \<noteq> High) \<and>
         s = [StatisticalStability (length anomalies)] \<or>
       (\<exists>a \<in> set anomalies. severity_level a = High) \<and>
         s = [CriticalVolatility (length (filter (\<lambda>a. severity_level a = High) anomalies)),
              StatisticalStability (length anomalies)]) \<and>
      (c = HighConfidence \<or> c = VariableForecast)"
proof -
  from generate_insights_Inr [OF assms] obtain ins2 recs2 where
    pk: "peak forecast history = Inr (ins2, recs2)" and
    ins: "insights out =
        TrendInsight (intensity_of (trend_pct_of (yhat (last forecast)) (y (last history))))
          (direction_of (trend_pct_of (yhat (last forecast)) (y (last history))))
          (f_abs (trend_pct_of (yhat (last forecast)) (y (last history))))
        # ins2 @ fst (anomaly_summary anomalies) @ fst (confidence (last forecast))"
    by blast
  from peak_cases [OF pk] have p: "ins2 = [] \<or> (\<exists>v d. ins2 = [ForecastPeak v d])"
    by blast
  have s: "anomalies = [] \<and> fst (anomaly_summary anomalies) = [OperationalStability] \<or>
       anomalies \<noteq> [] \<and> (\<forall>a \<in> set anomalies. severity_level a \<noteq> High) \<and>
         fst (anomaly_summary anomalies) = [StatisticalStability (length anomalies)] \<or>
       (\<exists>a \<in> set anomalies. severity_level a = High) \<and>
         fst (anomaly_summary anomalies) =
           [CriticalVolatility (length (filter (\<lambda>a. severity_level a = High) anomalies)),
            StatisticalStability (length anomalies)]"
    using anomaly_summary_cases [of anomalies]
    by (auto simp: filter_empty_conv)
  from confidence_cases [of "last forecast"]
  obtain c where c: "fst (confidence (last forecast)) = [c]" "c = HighConfidence \<or> c = VariableForecast"
    by auto
  let ?T = "TrendInsight (intensity_of (trend_pct_of (yhat (last forecast)) (y (last history))))
          (direction_of (trend_pct_of (yhat (last forecast)) (y (last history))))
          (f_abs (trend_pct_of (yhat (last forecast)) (y (last history))))"
  let ?S = "fst (anomaly_summary anomalies)"
  have "insights out = ?T # ins2 @ ?S @ [c]"
    using ins c(1) by simp
  moreover have "\<exists>i d v. ?T = TrendInsight i d v" by blast
  ultimately show ?thesis
    using p s c(2) by (intro exI [of _ ?T] exI [of _ ins2] exI [of _ ?S] exI [of _ c]) blast
qed

lemma recommendations_shape:
  assumes "generate_insights forecast anomalies history = Inr out"
  shows "\<exists>t p s c. recommendations out = t # p @ s @ c \<and>
      is_trend_recommendation t \<and>
      (p = [] \<or> (\<exists>d. p = [PeakReadiness d])) \<and>
      (s = [] \<or> s = [RiskMitigation]) \<and>
      (c = [] \<or> c = [DataRefinement])"
proof -
  from generate_insights_Inr [OF assms] obtain ins2 recs2 where
    pk: "peak forecast history = Inr (ins2, recs2)" and
    recs: "recommendations out =
        trend_recommendation (trend_pct_of (yhat (last forecast)) (y (last history)))
        # recs2 @ snd (anomaly_summary anomalies) @ snd (confidence (last forecast))"
    by blast
  from peak_cases [OF pk] have p: "recs2 = [] \<or> (\<exists>d. recs2 = [PeakReadiness d])"
    by blast
  have s: "snd (anomaly_summary anomalies) = [] \<or> snd (anomaly_summary anomalies) = [RiskMitigation]"
    using anomaly_summary_cases [of anomalies] by auto
  have c: "snd (confidence (last forecast)) = [] \<or> snd (confidence (last forecast)) = [DataRefinement]"
    using confidence_cases [of "last forecast"] by auto
  show ?thesis
    using recs p s c trend_recommendation_is_trend
    by (intro exI [of _ "trend_recommendation (trend_pct_of (yhat (last forecast)) (y (last history)))"]
        exI [of _ recs2] exI [of _ "snd (anomaly_summary anomalies)"]
        exI [of _ "snd (confidence (last forecast))"]) blast
qed

text \<open>
  Claim C3. On every input on which \<^verbatim>\<open>generate_insights\<close> returns, the insight at index 0 is
  the trend insight; the insights come in the order of the rules (trend, then at most one
  peak insight, then the anomaly summary, then the confidence insight); a critical-volatility
  insight stands at a larger index than every trend or peak insight; and it is emitted
  exactly when some anomaly has the level High.
\<close>

theorem insight_order:
  assumes "generate_insights forecast anomalies history = Inr out"
  shows "(\<exists>i d v. insights out ! 0 = TrendInsight i d v) \<and>
         sorted (map rule_of (insights out)) \<and>
         (\<forall>i j k. i < length (insights out) \<and> j < length (insights out) \<and>
            insights out ! i = CriticalVolatility k \<and> rule_of (insights out ! j) \<le> 2
            \<longrightarrow> j < i) \<and>
         ((\<exists>k. CriticalVolatility k \<in> set (insights out)) \<longleftrightarrow>
            (\<exists>a \<in> set anomalies. severity_level a = High)) \<and>
         (\<exists>t p s c. insights out = t # p @ s @ [c] \<and> rule_of t = 1 \<and>
            length p \<le> 1 \<and> (\<forall>x \<in> set p. rule_of x = 2) \<and>
            s \<noteq> [] \<and> (\<forall>x \<in> set s. rule_of x = 3) \<and> rule_of c = 4)"
proof -
  from insights_shape [OF assms] obtain t p s c where
    eq: "insights out = t # p @ s @ [c]" and
    t: "\<exists>i d v. t = TrendInsight i d v" and
    p: "p = [] \<or> (\<exists>v d. p = [ForecastPeak v d])" and
    s: "anomalies = [] \<and> s = [OperationalStability] \<or>
       anomalies \<noteq> [] \<and> (\<forall>a \<in> set anomalies. severity_level a \<noteq> High) \<and>
         s = [StatisticalStability (length anomalies)] \<or>
       (\<exists>a \<in> set anomalies. severity_level a = High) \<and>
         s = [CriticalVolatility (length (filter (\<lambda>a. severity_level a = High) anomalies)),
              StatisticalStability (length anomalies)]" and
    c: "c = HighConfidence \<or> c = VariableForecast"
    by blast
  have rt: "rule_of t = 1" using t by auto
  have rp: "length p \<le> 1" "\<forall>x \<in> set p. rule_of x = 2" using p by auto
  have rs: "s \<noteq> []" "\<forall>x \<in> set s. rule_of x = 3" using s by auto
  have rc: "rule_of c = 4" using c by auto
  have first: "\<exists>i d v. insights out ! 0 = TrendInsight i d v"
    using t by (simp add: eq)
  have srt: "sorted (map rule_of (insights out))"
    using rt rp rs rc sorted_map_const [of p rule_of 2] sorted_map_const [of s rule_of 3]
    by (auto simp: eq sorted_append)
  have idx: "\<forall>i j k. i < length (insights out) \<and> j < length (insights out) \<and>
            insights out ! i = CriticalVolatility k \<and> rule_of (insights out ! j) \<le> 2
            \<longrightarrow> j < i"
  proof (intro allI impI)
    fix i j k
    assume A: "i < length (insights out) \<and> j < length (insights out) \<and>
            insights out ! i = CriticalVolatility k \<and> rule_of (insights out ! j) \<le> 2"
    then have "rule_of (insights out ! j) < rule_of (insights out ! i)" by simp
    with srt A show "j < i" by (blast intro: sorted_rule_index)
  qed
  have crit: "(\<exists>k. CriticalVolatility k \<in> set (insights out)) \<longleftrightarrow>
            (\<exists>a \<in> set anomalies. severity_level a = High)"
    using t p s c by (auto simp: eq)
  show ?thesis
    using first srt idx crit eq rt rp rs rc by blast
qed

theorem insight_order_witness:
  "generate_insights
     [\<lparr>f_ds = 1, yhat_lower = Fin 90, yhat_upper = Fin 110, yhat = Fin 100\<rparr>,
      \<lparr>f_ds = 2, yhat_lower = Fin 110, yhat_upper = Fin 130, yhat = Fin 120\<rparr>]
     [\<lparr>a_ds = 1, a_y = Fin 150, a_yhat = Fin 100, a_yhat_lower = Fin 90, a_yhat_upper = Fin 110,
       severity = Fin 50, severity_level = High\<rparr>]
     [\<lparr>ds = 1, y = Fin 100\<rparr>]
   = Inr \<lparr>insights = [TrendInsight Significant Growth (Fin 20), ForecastPeak (Fin 120) 2,
            CriticalVolatility 1, StatisticalStability 1, VariableForecast],
          recommendations = [ScaleOperations, PeakReadiness 2, RiskMitigation, DataRefinement]\<rparr> \<and>
   sorted (map rule_of [TrendInsight Significant Growth (Fin 20), ForecastPeak (Fin 120) 2,
            CriticalVolatility 1, StatisticalStability 1, VariableForecast])"
proof -
  have run: "generate_insights
     [\<lparr>f_ds = 1, yhat_lower = Fin 90, yhat_upper = Fin 110, yhat = Fin 100\<rparr>,
      \<lparr>f_ds = 2, yhat_lower = Fin 110, yhat_upper = Fin 130, yhat = Fin 120\<rparr>]
     [\<lparr>a_ds = 1, a_y = Fin 150, a_yhat = Fin 100, a_yhat_lower = Fin 90, a_yhat_upper = Fin 110,
       severity = Fin 50, severity_level = High\<rparr>]
     [\<lparr>ds = 1, y = Fin 100\<rparr>]
   = Inr \<lparr>insights = [TrendInsight Significant Growth (Fin 20), ForecastPeak (Fin 120) 2,
            CriticalVolatility 1, StatisticalStability 1, VariableForecast],
          recommendations = [ScaleOperations, PeakReadiness 2, RiskMitigation, DataRefinement]\<rparr>"
    by (simp add: generate_insights_def iloc_last_def peak_def idxmax_row_def peak_step_def
        anomaly_summary_def confidence_def spread_of_def trend_pct_of_def direction_of_def
        intensity_of_def trend_recommendation_def f_sub_def f_add_def f_div_def f_mul_def
        f_gt_def)
  from insight_order [OF run] have "sorted (map rule_of [TrendInsight Significant Growth (Fin 20),
      ForecastPeak (Fin 120) 2, CriticalVolatility 1, StatisticalStability 1, VariableForecast])"
    by simp
  with run show ?thesis by (rule conjI)
qed

text \<open>
  Claim C9. On every input on which \<^verbatim>\<open>generate_insights\<close> returns, there are at least 3 and at
  most 5 insights, among them a trend insight, an anomaly-summary insight (statistical or
  operational stability) and a confidence insight, and at least 1 and at most 4
  recommendations, exactly one of which is a trend recommendation.
\<close>

theorem insight_counts:
  assumes "generate_insights forecast anomalies history = Inr out"
  shows "3 \<le> length (insights out) \<and> length (insights out) \<le> 5 \<and>
         1 \<le> length (recommendations out) \<and> length (recommendations out) \<le> 4 \<and>
         (\<exists>x \<in> set (insights out). rule_of x = 1) \<and>
         (StatisticalStability (length anomalies) \<in> set (insights out) \<or>
            OperationalStability \<in> set (insights out)) \<and>
         (HighConfidence \<in> set (insights out) \<or> VariableForecast \<in> set (insights out)) \<and>
         length (filter is_trend_recommendation (recommendations out)) = 1"
proof -
  from insights_shape [OF assms] obtain t p s c where
    eq: "insights out = t # p @ s @ [c]" and
    t: "\<exists>i d v. t = TrendInsight i d v" and
    p: "p = [] \<or> (\<exists>v d. p = [ForecastPeak v d])" and
    s: "anomalies = [] \<and> s = [OperationalStability] \<or>
       anomalies \<noteq> [] \<and> (\<forall>a \<in> set anomalies. severity_level a \<noteq> High) \<and>
         s = [StatisticalStability (length anomalies)] \<or>
       (\<exists>a \<in> set anomalies. severity_level a = High) \<and>
         s = [CriticalVolatility (length (filter (\<lambda>a. severity_level a = High) anomalies)),
              StatisticalStability (length anomalies)]" and
    c: "c = HighConfidence \<or> c = VariableForecast"
    by blast
  from recommendations_shape [OF assms] obtain rt rp rs rc where
    req: "recommendations out = rt # rp @ rs @ rc" and
    rt: "is_trend_recommendation rt" and
    rp: "rp = [] \<or> (\<exists>d. rp = [PeakReadiness d])" and
    rs: "rs = [] \<or> rs = [RiskMitigation]" and
    rc: "rc = [] \<or> rc = [DataRefinement]"
    by blast
  have li: "3 \<le> length (insights out) \<and> length (insights out) \<le> 5"
    using p s by (auto simp: eq)
  have lr: "1 \<le> length (recommendations out) \<and> length (recommendations out) \<le> 4"
    using rp rs rc by (auto simp: req)
  have tr: "\<exists>x \<in> set (insights out). rule_of x = 1"
    using t by (auto simp: eq)
  have sm: "StatisticalStability (length anomalies) \<in> set (insights out) \<or>
            OperationalStability \<in> set (insights out)"
    using s by (auto simp: eq)
  have cf: "HighConfidence \<in> set (insights out) \<or> VariableForecast \<in> set (insights out)"
    using c by (auto simp: eq)
  have one: "length (filter is_trend_recommendation (recommendations out)) = 1"
    using rt rp rs rc by (auto simp: req)
  show ?thesis
    using li lr tr sm cf one by blast
qed

theorem insight_counts_witness:
  "generate_insights
     [\<lparr>f_ds = 2, yhat_lower = Fin 99, yhat_upper = Fin 101, yhat = Fin 100\<rparr>] []
     [\<lparr>ds = 2, y = Fin 100\<rparr>]
   = Inr \<lparr>insights = [TrendInsight Minimal Decline (Fin 0), OperationalStability, HighConfidence],
          recommendations = [CostOptimization]\<rparr> \<and>
   3 \<le> length [TrendInsight Minimal Decline (Fin 0), OperationalStability, HighConfidence] \<and>
   1 \<le> length [CostOptimization]"
proof -
  have run: "generate_insights
     [\<lparr>f_ds = 2, yhat_lower = Fin 99, yhat_upper = Fin 101, yhat = Fin 100\<rparr>] []
     [\<lparr>ds = 2, y = Fin 100\<rparr>]
   = Inr \<lparr>insights = [TrendInsight Minimal Decline (Fin 0), OperationalStability, HighConfidence],
          recommendations = [CostOptimization]\<rparr>"
    by (simp add: generate_insights_def iloc_last_def peak_def idxmax_row_def peak_step_def
        anomaly_summary_def confidence_def spread_of_def trend_pct_of_def direction_of_def
        intensity_of_def trend_recommendation_def f_sub_def f_add_def f_div_def f_mul_def
        f_gt_def f_zero_def)
  from insight_counts [OF run]
  have "3 \<le> length [TrendInsight Minimal Decline (Fin 0), OperationalStability, HighConfidence] \<and>
      1 \<le> length [CostOptimization]"
    by simp
  with run show ?thesis by (rule conjI)
qed

section \<open>Properties of the column normalizer\<close>

lemma first_match_Some: 
  assumes "first_match P xs = Some x" shows "x \<in> set xs \<and> P x"
proof -
  from assms obtain ys where "filter P xs = x # ys"
    by (auto simp: first_match_def split: list.splits)
  then have "x \<in> set (filter P xs)" by simp
  then show ?thesis by simp
qed

lemma first_match_None: "first_match P xs = None \<longleftrightarrow> (\<forall>x \<in> set xs. \<not> P x)"
proof (cases "filter P xs")
  case Nil
  then show ?thesis by (simp add: first_match_def filter_empty_conv)
next
  case (Cons z zs)
  then have "z \<in> set (filter P xs)" by simp
  then have "z \<in> set xs \<and> P z" by simp
  with Cons show ?thesis by (auto simp: first_match_def)
qed

lemma keep_rows_map: "keep_rows k (map f xs) = map f (keep_rows k xs)"
proof (induction k arbitrary: xs)
  case Nil
  then show ?case by (simp add: keep_rows_def)
next
  case (Cons b bs)
  then show ?case by (cases xs) (auto simp: keep_rows_def)
qed

lemma keep_rows_self: "keep_rows (map P xs) xs = filter P xs"
  by (induction xs) (auto simp: keep_rows_def)

lemma length_keep_rows: "length (keep_rows k xs) \<le> length (filter (\<lambda>b. b) k)"
proof (induction k arbitrary: xs)
  case Nil
  then show ?case by (simp add: keep_rows_def)
next
  case (Cons b bs)
  show ?case
  proof (cases xs)
    case Nil
    then show ?thesis by (simp add: keep_rows_def)
  next
    case (Cons z zs)
    with Cons.IH [of zs] show ?thesis by (auto simp: keep_rows_def)
  qed
qed

lemma keep_rows_all: "\<forall>b \<in> set k. b \<Longrightarrow> length xs \<le> length k \<Longrightarrow> keep_rows k xs = xs"
proof (induction k arbitrary: xs)
  case Nil
  then show ?case by (simp add: keep_rows_def)
next
  case (Cons b bs)
  show ?case
  proof (cases xs)
    case Nil
    then show ?thesis by (simp add: keep_rows_def)
  next
    case (Cons z zs)
    with Cons.prems Cons.IH [of zs] show ?thesis by (auto simp: keep_rows_def)
  qed
qed

lemma rename_ds_y: "rename_columns ''ds'' ''y'' df = df"
  by (induction df) (auto simp: rename_columns_def)

lemma detect_date_Some:
  assumes "detect_date df = Some d"
  shows "d \<in> set (map col_name df) \<and> d \<noteq> ''y''"
proof (cases "''ds'' \<in> set (map col_name df)")
  case True
  with assms show ?thesis by (auto simp: detect_date_def)
next
  case False
  with assms have "first_match (\<lambda>col. lower col \<in> set date_names) (map col_name df) = Some d"
    by (simp add: detect_date_def)
  then have "d \<in> set (map col_name df)" "lower d \<in> set date_names"
    using first_match_Some by fastforce+
  moreover have "lower ''y'' \<notin> set date_names"
    by (simp add: lower_def lower_char_def date_names_def)
  ultimately show ?thesis by auto
qed

lemma first_match_map:
  "first_match P (map f xs) = map_option f (first_match (\<lambda>x. P (f x)) xs)"
  by (simp add: first_match_def filter_map comp_def split: list.splits)

lemma filter_same_label:
  "distinct (map f xs) \<Longrightarrow> x \<in> set xs \<Longrightarrow> filter (\<lambda>z. f z = f x) xs = [x]"
proof (induction xs)
  case Nil
  then show ?case by simp
next
  case (Cons a as)
  show ?case
  proof (cases "x = a")
    case True
    from Cons.prems(1) have nota: "f a \<notin> set (map f as)" by simp
    have "\<forall>z \<in> set as. f z \<noteq> f a"
    proof
      fix z assume "z \<in> set as"
      then have "f z \<in> set (map f as)" by simp
      with nota show "f z \<noteq> f a" by metis
    qed
    then have "filter (\<lambda>z. f z = f a) as = []" by (simp add: filter_empty_conv)
    with True show ?thesis by simp
  next
    case False
    with Cons.prems have xin: "x \<in> set as" by simp
    from Cons.prems(1) have nota: "f a \<notin> set (map f as)" by simp
    from xin have "f x \<in> set (map f as)" by simp
    with nota have "f a \<noteq> f x" by metis
    with Cons.IH Cons.prems xin show ?thesis by simp
  qed
qed

lemma numeric_cols_distinct:
  assumes "distinct (map col_name df)" "set cs \<subseteq> set df"
  shows "numeric_cols df (map col_name cs) = map col_name (filter col_numeric cs)"
  using assms(2)
proof (induction cs)
  case Nil
  then show ?case by (simp add: numeric_cols_def)
next
  case (Cons c cs)
  then have cin: "c \<in> set df" and rest: "set cs \<subseteq> set df" by auto
  have "filter (\<lambda>z. col_name z = col_name c \<and> col_numeric z) df =
      filter col_numeric (filter (\<lambda>z. col_name z = col_name c) df)"
    by (simp add: conj_commute)
  also have "\<dots> = filter col_numeric [c]"
    using filter_same_label [OF assms(1) cin] by simp
  finally have one: "filter (\<lambda>z. col_name z = col_name c \<and> col_numeric z) df = filter col_numeric [c]" .
  from Cons.IH [OF rest] have "numeric_cols df (map col_name cs) = map col_name (filter col_numeric cs)" .
  with one show ?case by (simp add: numeric_cols_def)
qed

text \<open>
  On a frame whose column labels are distinct, \<open>detect_target\<close> picks the column the
  priority order of the specification picks.
\<close>

lemma detect_target_priority:
  assumes "distinct (map col_name df)" "date_col \<noteq> ''y''"
  shows "detect_target df date_col = target_by_priority df date_col"
proof -
  let ?others = "filter (\<lambda>c. col_name c \<noteq> date_col) df"
  have pot: "filter (\<lambda>c. c \<noteq> date_col) (map col_name df) = map col_name ?others"
    by (simp add: filter_map comp_def)
  have ymem: "''y'' \<in> set (map col_name df) \<longleftrightarrow> ''y'' \<in> set (map col_name ?others)"
    using assms(2) by auto
  have num: "numeric_cols df (map col_name ?others) = map col_name (filter col_numeric ?others)"
    using assms(1) by (rule numeric_cols_distinct) auto
  show ?thesis
  proof (cases "''y'' \<in> set (map col_name df)")
    case True
    with ymem show ?thesis
      by (simp add: detect_target_def target_by_priority_def)
  next
    case False
    note noy = this
    show ?thesis
    proof (cases "first_match (\<lambda>c. lower (col_name c) = ''y'') ?others")
      case (Some c)
      then have "lower (col_name c) = ''y''" using first_match_Some by fastforce
      then have "col_name c \<noteq> []" by (auto simp: lower_def)
      with Some noy ymem show ?thesis
        by (simp add: detect_target_def target_by_priority_def pot first_match_map Let_def)
    next
      case None
      note b = this
      show ?thesis
      proof (cases "first_match (\<lambda>c. lower (col_name c) \<in> set common_names) ?others")
        case (Some c)
        then have "lower (col_name c) \<in> set common_names" using first_match_Some by fastforce
        then have "col_name c \<noteq> []" by (auto simp: lower_def common_names_def)
        with Some b noy ymem show ?thesis
          by (simp add: detect_target_def target_by_priority_def pot first_match_map Let_def)
      next
        case None
        have t1: "first_match (\<lambda>col. lower col = ''y'') (map col_name ?others) = None"
          using b by (simp add: first_match_map)
        have t2: "first_match (\<lambda>col. lower col \<in> set common_names) (map col_name ?others) = None"
          using None by (simp add: first_match_map)
        have lhs: "detect_target df date_col =
            (case map col_name (filter col_numeric ?others) of [] \<Rightarrow> None | col # _ \<Rightarrow> Some col)"
          using noy unfolding detect_target_def pot Let_def t1 t2 num
          by (simp split: list.splits)
        have rhs: "target_by_priority df date_col =
            (case first_match col_numeric ?others of Some c \<Rightarrow> Some (col_name c) | None \<Rightarrow> None)"
          using noy ymem unfolding target_by_priority_def Let_def b None by simp
        show ?thesis
          unfolding lhs rhs by (simp add: first_match_def split: list.splits)
      qed
    qed
  qed
qed

lemma detect_date_nonempty:
  assumes "detect_date df = Some d"
  shows "d \<noteq> []"
proof (cases "''ds'' \<in> set (map col_name df)")
  case True
  with assms show ?thesis by (auto simp: detect_date_def)
next
  case False
  with assms have "first_match (\<lambda>col. lower col \<in> set date_names) (map col_name df) = Some d"
    by (simp add: detect_date_def)
  then have "lower d \<in> set date_names"
    using first_match_Some by fastforce
  then show ?thesis by (auto simp: lower_def date_names_def)
qed

text \<open>
  \<^verbatim>\<open>normalize_columns\<close> raises the no-target error when the priority order finds no column,
  and also when the column it finds has the empty label.
\<close>

lemma normalize_columns_no_target:
  assumes "distinct (map col_name df)" "detect_date df = Some d"
  shows "normalize_columns parse df = Inl NoTargetColumn \<longleftrightarrow>
           target_by_priority df d = None \<or> target_by_priority df d = Some ''''"
proof -
  from assms(2) have d: "d \<noteq> ''y''" "d \<noteq> []"
    using detect_date_Some detect_date_nonempty by blast+
  from assms(1) d(1) have t: "detect_target df d = target_by_priority df d"
    by (rule detect_target_priority)
  have c: "coerce_and_filter parse fr \<noteq> Inl NoTargetColumn" for fr
    by (simp add: coerce_and_filter_def Let_def split: list.splits)
  show ?thesis
  proof (cases "py_not (target_by_priority df d)")
    case True
    then have "target_by_priority df d = None \<or> target_by_priority df d = Some ''''"
      by (cases "target_by_priority df d") auto
    with True show ?thesis
      using assms(2) d(2) t by (simp add: normalize_columns_def)
  next
    case False
    then have "\<not> (target_by_priority df d = None \<or> target_by_priority df d = Some '''')"
      by (cases "target_by_priority df d") auto
    with False show ?thesis
      using assms(2) d(2) t c by (simp add: normalize_columns_def)
  qed
qed

lemma keep_rows_map_self: "keep_rows (map P xs) (map f xs) = map f (filter P xs)"
  by (simp only: keep_rows_map keep_rows_self)

lemma coerce_and_filter_Inr:
  assumes "coerce_and_filter parse df = Inr out"
  shows "\<exists>ycol. filter (\<lambda>c. col_name c = ''y'') df = [ycol] \<and>
     out = map (\<lambda>c. c\<lparr>col_cells :=
                 keep_rows (map (\<lambda>v. \<not> is_nan v) (map (to_numeric parse) (col_cells ycol)))
                   (col_cells c)\<rparr>)
             (filter (\<lambda>c. col_name c = ''ds'') df)
           @ [ycol\<lparr>col_numeric := True,
                col_cells := map Num (filter (\<lambda>v. \<not> is_nan v)
                  (map (to_numeric parse) (col_cells ycol)))\<rparr>]"
proof -
  from assms obtain ycol where yc: "filter (\<lambda>c. col_name c = ''y'') df = [ycol]"
    by (auto simp: coerce_and_filter_def split: list.splits)
  let ?nums = "map (to_numeric parse) (col_cells ycol)"
  let ?keep = "map (\<lambda>v. \<not> is_nan v) ?nums"
  let ?g = "\<lambda>c. (if col_name c = ''y'' then c\<lparr>col_numeric := True, col_cells := map Num ?nums\<rparr> else c)"
  let ?h = "\<lambda>c. c\<lparr>col_cells := keep_rows ?keep (col_cells c)\<rparr>"
  from assms yc have out: "out = filter (\<lambda>c. col_name c = ''ds'') (map ?h (map ?g df))
      @ filter (\<lambda>c. col_name c = ''y'') (map ?h (map ?g df))"
    by (simp add: coerce_and_filter_def Let_def)
  have f1: "filter (\<lambda>c. col_name c = ''ds'') (map ?h (map ?g df)) =
      map ?h (filter (\<lambda>c. col_name c = ''ds'') df)"
    by (induction df) auto
  have f2: "filter (\<lambda>c. col_name c = ''y'') (map ?h (map ?g df)) =
      map (\<lambda>c. ?h (c\<lparr>col_numeric := True, col_cells := map Num ?nums\<rparr>))
        (filter (\<lambda>c. col_name c = ''y'') df)"
    by (induction df) auto
  have k: "keep_rows ?keep (map Num ?nums) = map Num (filter (\<lambda>v. \<not> is_nan v) ?nums)"
    by (rule keep_rows_map_self)
  show ?thesis
  proof (intro exI [of _ ycol] conjI)
    show "filter (\<lambda>c. col_name c = ''y'') df = [ycol]" by (rule yc)
    show "out = map ?h (filter (\<lambda>c. col_name c = ''ds'') df)
           @ [ycol\<lparr>col_numeric := True,
                col_cells := map Num (filter (\<lambda>v. \<not> is_nan v) ?nums)\<rparr>]"
      unfolding out f1 f2 yc by (simp add: keep_rows_map_self filter_map)
  qed
qed

lemma numeric_cols_subset: "set (numeric_cols df labels) \<subseteq> set labels"
  by (auto simp: numeric_cols_def)

lemma detect_target_not_date:
  assumes "detect_target df d = Some t" "d \<noteq> ''y''"
  shows "t \<noteq> d"
proof (cases "''y'' \<in> set (map col_name df)")
  case True
  with assms show ?thesis by (auto simp: detect_target_def)
next
  case False
  define pot where "pot = filter (\<lambda>c. c \<noteq> d) (map col_name df)"
  have a: "first_match P pot = Some x \<Longrightarrow> x \<in> set pot" for P x
    using first_match_Some by fastforce
  have b: "numeric_cols df pot = x # xs \<Longrightarrow> x \<in> set pot" for x xs
    using numeric_cols_subset [of df pot] by auto
  from assms(1) False have "t \<in> set pot"
    unfolding detect_target_def Let_def pot_def [symmetric]
    by (auto split: if_splits option.splits list.splits dest: a b)
  then show ?thesis by (simp add: pot_def)
qed

lemma renamed_date_present:
  assumes "d \<in> set (map col_name df)" "d \<noteq> t"
  shows "filter (\<lambda>c. col_name c = ''ds'') (rename_columns d t df) \<noteq> []"
proof -
  have "''ds'' \<in> set (map col_name (rename_columns d t df))"
    using assms by (induction df) (auto simp: rename_columns_def)
  then have "\<exists>c \<in> set (rename_columns d t df). col_name c = ''ds''" by auto
  then show ?thesis by (simp add: filter_empty_conv)
qed

lemma normalize_columns_Inr:
  assumes "normalize_columns parse df = Inr out"
  shows "\<exists>d t. detect_date df = Some d \<and> d \<in> set (map col_name df) \<and> d \<noteq> t \<and>
           coerce_and_filter parse (rename_columns d t df) = Inr out"
proof (cases "py_not (detect_date df)")
  case True
  with assms show ?thesis by (simp add: normalize_columns_def)
next
  case False
  then obtain d where d: "detect_date df = Some d"
    by (cases "detect_date df") auto
  then have din: "d \<in> set (map col_name df)" and dy: "d \<noteq> ''y''"
    using detect_date_Some by blast+
  show ?thesis
  proof (cases "py_not (detect_target df d)")
    case True
    with assms False d show ?thesis by (simp add: normalize_columns_def)
  next
    case nt: False
    then obtain t where t: "detect_target df d = Some t"
      by (cases "detect_target df d") auto
    from t dy have dt: "d \<noteq> t" using detect_target_not_date by blast
    from assms False nt have "coerce_and_filter parse (rename_columns d t df) = Inr out"
      by (simp add: normalize_columns_def Let_def d t)
    with d din dt show ?thesis by blast
  qed
qed

lemma present_numbers:
  "list_all present_number (map Num (filter (\<lambda>v. \<not> is_nan v) vs))"
  by (induction vs) auto

lemma length_filter_map_True: "length (filter (\<lambda>b. b) (map P xs)) = length (filter P xs)"
  by (induction xs) auto

lemma normalize_columns_output:
  assumes "normalize_columns parse df = Inr out"
  shows "is_normalized out"
proof -
  from normalize_columns_Inr [OF assms] obtain d t where
    d: "d \<in> set (map col_name df)" and dt: "d \<noteq> t" and
    cf: "coerce_and_filter parse (rename_columns d t df) = Inr out"
    by blast
  define rdf where "rdf = rename_columns d t df"
  from coerce_and_filter_Inr [OF cf] obtain ycol where
    yc: "filter (\<lambda>c. col_name c = ''y'') rdf = [ycol]" and
    out: "out = map (\<lambda>c. c\<lparr>col_cells :=
                 keep_rows (map (\<lambda>v. \<not> is_nan v) (map (to_numeric parse) (col_cells ycol)))
                   (col_cells c)\<rparr>)
             (filter (\<lambda>c. col_name c = ''ds'') rdf)
           @ [ycol\<lparr>col_numeric := True,
                col_cells := map Num (filter (\<lambda>v. \<not> is_nan v)
                  (map (to_numeric parse) (col_cells ycol)))\<rparr>]"
    unfolding rdf_def by blast
  define nums where "nums = map (to_numeric parse) (col_cells ycol)"
  define keep where "keep = map (\<lambda>v. \<not> is_nan v) nums"
  define dcols where "dcols = map (\<lambda>c. c\<lparr>col_cells := keep_rows keep (col_cells c)\<rparr>)
      (filter (\<lambda>c. col_name c = ''ds'') rdf)"
  define ynew where "ynew = ycol\<lparr>col_numeric := True,
      col_cells := map Num (filter (\<lambda>v. \<not> is_nan v) nums)\<rparr>"
  have out': "out = dcols @ [ynew]"
    unfolding out dcols_def ynew_def keep_def nums_def ..
  have ne: "dcols \<noteq> []"
    using renamed_date_present [OF d dt] by (simp add: dcols_def rdf_def)
  have "ycol \<in> set (filter (\<lambda>c. col_name c = ''y'') rdf)" by (simp add: yc)
  then have yname: "col_name ynew = ''y''" by (simp add: ynew_def)
  have ynum: "col_numeric ynew" by (simp add: ynew_def)
  have ycells: "col_cells ynew = map Num (filter (\<lambda>v. \<not> is_nan v) nums)"
    by (simp add: ynew_def)
  have len: "length (keep_rows keep xs) \<le> length (filter (\<lambda>v. \<not> is_nan v) nums)"
    for xs :: "cell list"
    using length_keep_rows [of keep xs] unfolding keep_def by (simp only: length_filter_map_True)
  have all: "list_all (\<lambda>c. col_name c = ''ds'' \<and> length (col_cells c) \<le> length (col_cells ynew))
      dcols"
    using len by (simp add: list_all_iff dcols_def ycells)
  have pres: "list_all present_number (col_cells ynew)"
    unfolding ycells by (rule present_numbers)
  have bl: "butlast out = dcols" and la: "last out = ynew" and one: "out \<noteq> []"
    by (simp_all add: out')
  show ?thesis
    unfolding is_normalized_def bl la
    using one ne all yname ynum pres by simp
qed

lemma present_number_cells:
  assumes "list_all present_number cs"
  shows "map Num (map (to_numeric parse) cs) = cs \<and>
         list_all (\<lambda>v. \<not> is_nan v) (map (to_numeric parse) cs)"
  using assms
proof (induction cs)
  case Nil
  then show ?case by simp
next
  case (Cons c cs)
  then show ?case by (cases c) auto
qed

lemma normalized_fixed:
  assumes "is_normalized t"
  shows "normalize_columns parse t = Inr t"
proof -
  let ?d = "butlast t" and ?y = "last t"
  from assms have ne: "t \<noteq> []" and dne: "?d \<noteq> []"
    and dall: "\<forall>c \<in> set ?d. col_name c = ''ds'' \<and> length (col_cells c) \<le> length (col_cells ?y)"
    and yn: "col_name ?y = ''y''" and ynum: "col_numeric ?y"
    and ycells: "list_all present_number (col_cells ?y)"
    by (simp_all add: is_normalized_def list_all_iff)
  from ne have t: "t = ?d @ [?y]" by simp
  have fy: "filter (\<lambda>c. col_name c = ''y'') t = [?y]"
  proof -
    have "filter (\<lambda>c. col_name c = ''y'') ?d = []"
      using dall by (auto simp: filter_empty_conv)
    then have "filter (\<lambda>c. col_name c = ''y'') (?d @ [?y]) = [?y]"
      using yn by simp
    with t show ?thesis by simp
  qed
  have fd: "filter (\<lambda>c. col_name c = ''ds'') t = ?d"
  proof -
    have "filter (\<lambda>c. col_name c = ''ds'') ?d = ?d"
      using dall by (simp add: filter_id_conv)
    then have "filter (\<lambda>c. col_name c = ''ds'') (?d @ [?y]) = ?d"
      using yn by simp
    with t show ?thesis by simp
  qed
  from dne obtain c0 where "c0 \<in> set ?d" by (cases ?d) auto
  with dall have "c0 \<in> set t" "col_name c0 = ''ds''" by (auto dest: in_set_butlastD)
  then have dsin: "''ds'' \<in> set (map col_name t)" by force
  from ne yn have yin: "''y'' \<in> set (map col_name t)"
    by (metis last_in_set image_eqI list.set_map)
  have dd: "detect_date t = Some ''ds''" using dsin by (simp add: detect_date_def)
  have dt: "detect_target t ''ds'' = Some ''y''" using yin by (simp add: detect_target_def)
  let ?nums = "map (to_numeric parse) (col_cells ?y)"
  let ?keep = "map (\<lambda>v. \<not> is_nan v) ?nums"
  let ?g = "\<lambda>c. (if col_name c = ''y'' then c\<lparr>col_numeric := True, col_cells := map Num ?nums\<rparr> else c)"
  let ?h = "\<lambda>c. c\<lparr>col_cells := keep_rows ?keep (col_cells c)\<rparr>"
  from present_number_cells [OF ycells, of parse]
  have same: "map Num ?nums = col_cells ?y" and nonan: "\<forall>b \<in> set ?keep. b"
    by (auto simp: list_all_iff)
  have klen: "length ?keep = length (col_cells ?y)" by simp
  have keepall: "keep_rows ?keep xs = xs" if "length xs \<le> length (col_cells ?y)" for xs :: "cell list"
    using nonan that klen by (simp only: keep_rows_all)
  have gy: "?g ?y = ?y" using ynum same by simp
  have hg: "?h (?g c) = c" if "c \<in> set t" for c
  proof (cases "c \<in> set ?d")
    case True
    with dall have "col_name c = ''ds''" "length (col_cells c) \<le> length (col_cells ?y)" by auto
    then show ?thesis using keepall [of "col_cells c"] by simp
  next
    case False
    with that t have "c = ?y" by (metis Un_iff empty_iff insert_iff list.simps(15) set_append set_empty)
    have "?h (?g ?y) = ?h ?y" by (simp only: gy)
    also have "\<dots> = ?y" using keepall [of "col_cells ?y"] by simp
    finally have "?h (?g ?y) = ?y" .
    then show ?thesis unfolding \<open>c = ?y\<close> .
  qed
  have mp: "map ?h (map ?g t) = t"
    using hg by (simp add: map_idI)
  have "coerce_and_filter parse t = Inr (filter (\<lambda>c. col_name c = ''ds'') (map ?h (map ?g t))
      @ filter (\<lambda>c. col_name c = ''y'') (map ?h (map ?g t)))"
    using fy by (simp add: coerce_and_filter_def Let_def)
  also have "\<dots> = Inr (?d @ [?y])" unfolding mp fd fy ..
  finally have "coerce_and_filter parse t = Inr t" using t by simp
  then show ?thesis
    using dd dt by (simp add: normalize_columns_def rename_ds_y)
qed

text \<open>
  Claim C6. \<^verbatim>\<open>normalize_columns\<close> is idempotent: applied to a table it has returned, it
  returns that table unchanged; and so it does on every table of the normalized shape (the
  columns \<^verbatim>\<open>ds\<close> and \<^verbatim>\<open>y\<close>, with \<^verbatim>\<open>y\<close> numeric and no missing value left in it).
\<close>

theorem normalize_columns_idempotent:
  "(normalize_columns parse df = Inr out \<longrightarrow> normalize_columns parse out = Inr out) \<and>
   (is_normalized t \<longrightarrow> normalize_columns parse t = Inr t)"
  using normalize_columns_output [of parse df out] normalized_fixed [of out parse]
    normalized_fixed [of t parse]
  by blast

theorem normalize_columns_idempotent_witness:
  "normalize_columns (\<lambda>s. if s = ''10'' then Some (Fin 10) else None)
     [\<lparr>col_name = ''Date'', col_numeric = False,
        col_cells = [Str ''2024-01-01'', Str ''2024-01-02'', Str ''2024-01-03'']\<rparr>,
      \<lparr>col_name = ''Sales'', col_numeric = False,
        col_cells = [Str ''10'', Str ''abc'', NoneCell]\<rparr>]
   = Inr [\<lparr>col_name = ''ds'', col_numeric = False, col_cells = [Str ''2024-01-01'']\<rparr>,
          \<lparr>col_name = ''y'', col_numeric = True, col_cells = [Num (Fin 10)]\<rparr>] \<and>
   normalize_columns (\<lambda>s. if s = ''10'' then Some (Fin 10) else None)
     [\<lparr>col_name = ''ds'', col_numeric = False, col_cells = [Str ''2024-01-01'']\<rparr>,
      \<lparr>col_name = ''y'', col_numeric = True, col_cells = [Num (Fin 10)]\<rparr>]
   = Inr [\<lparr>col_name = ''ds'', col_numeric = False, col_cells = [Str ''2024-01-01'']\<rparr>,
          \<lparr>col_name = ''y'', col_numeric = True, col_cells = [Num (Fin 10)]\<rparr>]"
proof -
  let ?p = "\<lambda>s. if s = ''10'' then Some (Fin 10) else None"
  let ?df = "[\<lparr>col_name = ''Date'', col_numeric = False,
        col_cells = [Str ''2024-01-01'', Str ''2024-01-02'', Str ''2024-01-03'']\<rparr>,
      \<lparr>col_name = ''Sales'', col_numeric = False,
        col_cells = [Str ''10'', Str ''abc'', NoneCell]\<rparr>]"
  let ?out = "[\<lparr>col_name = ''ds'', col_numeric = False, col_cells = [Str ''2024-01-01'']\<rparr>,
          \<lparr>col_name = ''y'', col_numeric = True, col_cells = [Num (Fin 10)]\<rparr>]"
  have run: "normalize_columns ?p ?df = Inr ?out"
    by (simp add: normalize_columns_def detect_date_def detect_target_def first_match_def
        date_names_def common_names_def lower_def lower_char_def coerce_and_filter_def
        rename_columns_def keep_rows_def)
  with normalize_columns_idempotent [of ?p ?df ?out]
  have "normalize_columns ?p ?out = Inr ?out" by blast
  with run show ?thesis by (rule conjI)
qed




text \<open>
  Claim C7, where the code departs from it. For the frame with a column \<^verbatim>\<open>date\<close> and a numeric
  column whose label is the empty string, the priority order selects that numeric column
  (rule d), but \<^verbatim>\<open>if not target_col\<close> takes the empty label for no column and raises the
  no-target error. With the label \<^verbatim>\<open>x\<close> in place of the empty one the same frame is
  normalized.
\<close>

theorem empty_label_target_rejected:
  "normalize_columns parse
     [\<lparr>col_name = ''date'', col_numeric = False, col_cells = [Str ''2024-01-01'']\<rparr>,
      \<lparr>col_name = '''', col_numeric = True, col_cells = [Num (Fin 1)]\<rparr>] = Inl NoTargetColumn \<and>
   detect_date
     [\<lparr>col_name = ''date'', col_numeric = False, col_cells = [Str ''2024-01-01'']\<rparr>,
      \<lparr>col_name = '''', col_numeric = True, col_cells = [Num (Fin 1)]\<rparr>] = Some ''date'' \<and>
   target_by_priority
     [\<lparr>col_name = ''date'', col_numeric = False, col_cells = [Str ''2024-01-01'']\<rparr>,
      \<lparr>col_name = '''', col_numeric = True, col_cells = [Num (Fin 1)]\<rparr>] ''date'' = Some '''' \<and>
   normalize_columns parse
     [\<lparr>col_name = ''date'', col_numeric = False, col_cells = [Str ''2024-01-01'']\<rparr>,
      \<lparr>col_name = ''x'', col_numeric = True, col_cells = [Num (Fin 1)]\<rparr>] =
   Inr [\<lparr>col_name = ''ds'', col_numeric = False, col_cells = [Str ''2024-01-01'']\<rparr>,
        \<lparr>col_name = ''y'', col_numeric = True, col_cells = [Num (Fin 1)]\<rparr>]"
  by (simp add: normalize_columns_def detect_date_def detect_target_def first_match_def
      date_names_def common_names_def numeric_cols_def lower_def lower_char_def
      coerce_and_filter_def rename_columns_def keep_rows_def target_by_priority_def)

end
